theory Spec2Isabelle
  imports Main "HOL-Library.Word"
begin

unbundle bit_operations_syntax

section \<open>The CHIP-8 machine of chip8.cpp\<close>

text \<open>
  A shallow embedding of class \<open>Chip8\<close>. The fixed-size \<open>std::array\<close> members are lists;
  \<open>uint8_t\<close> and \<open>uint16_t\<close> are 8-bit and 16-bit words, values promoted to \<open>int\<close> in an
  index expression are natural numbers. \<open>std::array::operator[]\<close> makes no range check:
  indexing at or beyond the array's size has no defined behaviour in C++. The model makes
  every such access a result of its own, \<open>Undefined_Behaviour\<close>, naming the array and the
  index, so that it is never confused with a value the program computes or with an error
  the program reports. What the program writes to \<open>std::cerr\<close> is the field \<open>cerr\<close>.
\<close>

type_synonym u8 = "8 word"
type_synonym u16 = "16 word"

abbreviation MEMORY_SIZE :: nat where "MEMORY_SIZE \<equiv> 4096"
abbreviation REGISTER_COUNT :: nat where "REGISTER_COUNT \<equiv> 16"
abbreviation STACK_SIZE :: nat where "STACK_SIZE \<equiv> 16"
abbreviation KEYPAD_SIZE :: nat where "KEYPAD_SIZE \<equiv> 16"
abbreviation DISPLAY_WIDTH :: nat where "DISPLAY_WIDTH \<equiv> 64"
abbreviation DISPLAY_HEIGHT :: nat where "DISPLAY_HEIGHT \<equiv> 32"
abbreviation PROGRAM_START :: nat where "PROGRAM_START \<equiv> 512"
abbreviation FONTSET_SIZE :: nat where "FONTSET_SIZE \<equiv> 80"

record chip8 =
  memory :: "u8 list"
  V :: "u8 list"
  I :: u16
  pc :: u16
  stack :: "u16 list"
  sp :: u16
  display :: "u8 list"
  keypad :: "u8 list"
  delayTimer :: u8
  soundTimer :: u8
  drawFlag :: bool
  cerr :: "string list"

datatype array_name = Memory | Stack | Display | Keypad

datatype fault =
  Undefined_Behaviour array_name nat
| Exit_Process int "string list"

text \<open>The sizes that the array types fix.\<close>

definition valid :: "chip8 \<Rightarrow> bool" where
  "valid s \<longleftrightarrow>
     length (memory s) = MEMORY_SIZE \<and> length (V s) = REGISTER_COUNT \<and>
     length (stack s) = STACK_SIZE \<and>
     length (display s) = DISPLAY_WIDTH * DISPLAY_HEIGHT \<and>
     length (keypad s) = KEYPAD_SIZE"

definition fontset :: "u8 list" where
  "fontset =
    [0xF0, 0x90, 0x90, 0x90, 0xF0,
     0x20, 0x60, 0x20, 0x20, 0x70,
     0xF0, 0x10, 0xF0, 0x80, 0xF0,
     0xF0, 0x10, 0xF0, 0x10, 0xF0,
     0x90, 0x90, 0xF0, 0x10, 0x10,
     0xF0, 0x80, 0xF0, 0x10, 0xF0,
     0xF0, 0x80, 0xF0, 0x90, 0xF0,
     0xF0, 0x10, 0x20, 0x40, 0x40,
     0xF0, 0x90, 0xF0, 0x90, 0xF0,
     0xF0, 0x90, 0xF0, 0x10, 0xF0,
     0xF0, 0x90, 0xF0, 0x90, 0x90,
     0xE0, 0x90, 0xE0, 0x90, 0xE0,
     0xF0, 0x80, 0x80, 0x80, 0xF0,
     0xE0, 0x90, 0x90, 0x90, 0xE0,
     0xF0, 0x80, 0xF0, 0x80, 0xF0,
     0xF0, 0x80, 0xF0, 0x80, 0x80]"

text \<open>The constructor's loop \<open>memory[0x50 + i] = fontset[i]\<close>, for the indices given.\<close>

primrec load_fontset :: "nat list \<Rightarrow> u8 list \<Rightarrow> u8 list" where
  "load_fontset [] mem = mem"
| "load_fontset (i # is) mem = load_fontset is (mem[0x50 + i := fontset ! i])"

definition Chip8_init :: chip8 where
  "Chip8_init =
     \<lparr> memory = load_fontset [0..<FONTSET_SIZE] (replicate MEMORY_SIZE 0),
       V = replicate REGISTER_COUNT 0,
       I = 0,
       pc = of_nat PROGRAM_START,
       stack = replicate STACK_SIZE 0,
       sp = 0,
       display = replicate (DISPLAY_WIDTH * DISPLAY_HEIGHT) 0,
       keypad = replicate KEYPAD_SIZE 0,
       delayTimer = 0,
       soundTimer = 0,
       drawFlag = False,
       cerr = [] \<rparr>"

subsection \<open>loadROM\<close>

text \<open>
  The file is the argument \<open>file\<close>: \<open>None\<close> when it cannot be opened, its bytes otherwise
  (the read of an opened file is taken to succeed). The loop
  \<open>memory[PROGRAM_START + i] = buffer[i]\<close> runs over the bytes from index \<open>i\<close> on.
\<close>

fun copy_rom :: "nat \<Rightarrow> u8 list \<Rightarrow> chip8 \<Rightarrow> fault + chip8" where
  "copy_rom i [] s = Inr s"
| "copy_rom i (b # bs) s =
     (if PROGRAM_START + i < MEMORY_SIZE
      then copy_rom (Suc i) bs (s\<lparr>memory := (memory s)[PROGRAM_START + i := b]\<rparr>)
      else Inl (Undefined_Behaviour Memory (PROGRAM_START + i)))"

definition loadROM :: "string \<Rightarrow> u8 list option \<Rightarrow> chip8 \<Rightarrow> fault + chip8" where
  "loadROM filename file s =
     (case file of
        None \<Rightarrow> Inr (s\<lparr>cerr := cerr s @ [''Failed to open ROM: '' @ filename]\<rparr>)
      | Some buffer \<Rightarrow>
          if length buffer > MEMORY_SIZE
          then Inl (Exit_Process 1 (cerr s @ [''ROM FILE size exceeded limits'']))
          else copy_rom 0 buffer s)"

subsection \<open>fetchOpcode\<close>

definition fetchOpcode :: "chip8 \<Rightarrow> fault + u16" where
  "fetchOpcode s =
     (if unat (pc s) < MEMORY_SIZE
      then if unat (pc s) + 1 < MEMORY_SIZE
           then Inr (push_bit 8 (ucast (memory s ! unat (pc s)))
                       OR ucast (memory s ! (unat (pc s) + 1)))
           else Inl (Undefined_Behaviour Memory (unat (pc s) + 1))
      else Inl (Undefined_Behaviour Memory (unat (pc s))))"

subsection \<open>executeOpcode\<close>

text \<open>The operand fields: \<open>(opcode & 0x0F00) >> 8\<close>, \<open>(opcode & 0x00F0) >> 4\<close>, and the rest.\<close>

definition op_x :: "u16 \<Rightarrow> nat" where
  "op_x opcode = unat (drop_bit 8 (opcode AND 0x0F00))"

definition op_y :: "u16 \<Rightarrow> nat" where
  "op_y opcode = unat (drop_bit 4 (opcode AND 0x00F0))"

definition op_nn :: "u16 \<Rightarrow> u8" where
  "op_nn opcode = ucast (opcode AND 0x00FF)"

definition op_nnn :: "u16 \<Rightarrow> u16" where
  "op_nnn opcode = opcode AND 0x0FFF"

text \<open>\<open>std::cerr << std::hex << opcode\<close>: lower-case digits, no leading zeros.\<close>

definition hex_digit :: "nat \<Rightarrow> char" where
  "hex_digit d = ''0123456789abcdef'' ! d"

function hex_nat :: "nat \<Rightarrow> string" where
  "hex_nat n = (if n < 16 then [hex_digit n] else hex_nat (n div 16) @ [hex_digit (n mod 16)])"
  by pat_completeness auto
termination
  by (relation "measure id") auto

declare hex_nat.simps [simp del]

definition report :: "string \<Rightarrow> u16 \<Rightarrow> chip8 \<Rightarrow> chip8" where
  "report msg opcode s = s\<lparr>cerr := cerr s @ [msg @ hex_nat (unat opcode)]\<rparr>"

text \<open>Family 0: \<open>00E0\<close> clears the display, \<open>00EE\<close> returns; any other opcode does nothing.\<close>

definition exec_0 :: "u16 \<Rightarrow> chip8 \<Rightarrow> fault + chip8" where
  "exec_0 opcode s =
     (if opcode = 0x00E0
      then Inr (s\<lparr>display := replicate (DISPLAY_WIDTH * DISPLAY_HEIGHT) 0,
                  drawFlag := True, pc := pc s + 2\<rparr>)
      else if opcode = 0x00EE
      then (let sp' = sp s - 1 in
            if unat sp' < STACK_SIZE
            then Inr (s\<lparr>sp := sp', pc := (stack s ! unat sp') + 2\<rparr>)
            else Inl (Undefined_Behaviour Stack (unat sp')))
      else Inr s)"

text \<open>\<open>2nnn\<close>: \<open>stack[sp] = pc; ++sp; pc = opcode & 0x0FFF\<close>.\<close>

definition exec_2 :: "u16 \<Rightarrow> chip8 \<Rightarrow> fault + chip8" where
  "exec_2 opcode s =
     (if unat (sp s) < STACK_SIZE
      then Inr (s\<lparr>stack := (stack s)[unat (sp s) := pc s], sp := sp s + 1,
                  pc := op_nnn opcode\<rparr>)
      else Inl (Undefined_Behaviour Stack (unat (sp s))))"

text \<open>Family 8. The flag is stored in \<open>V[0xF]\<close> first; the second statement reads the
  registers after that store.\<close>

definition exec_8 :: "u16 \<Rightarrow> chip8 \<Rightarrow> fault + chip8" where
  "exec_8 opcode s =
     (let x = op_x opcode; y = op_y opcode; n = opcode AND 0x000F; v = V s in
      if n = 0x0 then Inr (s\<lparr>V := v[x := v ! y], pc := pc s + 2\<rparr>)
      else if n = 0x1 then Inr (s\<lparr>V := v[x := v ! x OR v ! y], pc := pc s + 2\<rparr>)
      else if n = 0x2 then Inr (s\<lparr>V := v[x := v ! x AND v ! y], pc := pc s + 2\<rparr>)
      else if n = 0x3 then Inr (s\<lparr>V := v[x := v ! x XOR v ! y], pc := pc s + 2\<rparr>)
      else if n = 0x4 then
        (let sum = (ucast (v ! x) + ucast (v ! y) :: u16);
             v1 = v[0xF := (if sum > 0xFF then 1 else 0)]
         in Inr (s\<lparr>V := v1[x := ucast (sum AND 0xFF)], pc := pc s + 2\<rparr>))
      else if n = 0x5 then
        (let v1 = v[0xF := (if v ! x > v ! y then 1 else 0)]
         in Inr (s\<lparr>V := v1[x := v1 ! x - v1 ! y], pc := pc s + 2\<rparr>))
      else if n = 0x6 then
        (let v1 = v[0xF := v ! x AND 0x1]
         in Inr (s\<lparr>V := v1[x := drop_bit 1 (v1 ! x)], pc := pc s + 2\<rparr>))
      else if n = 0x7 then
        (let v1 = v[0xF := (if v ! y > v ! x then 1 else 0)]
         in Inr (s\<lparr>V := v1[x := v1 ! y - v1 ! x], pc := pc s + 2\<rparr>))
      else if n = 0xE then
        (let v1 = v[0xF := drop_bit 7 (v ! x AND 0x80)]
         in Inr (s\<lparr>V := v1[x := push_bit 1 (v1 ! x)], pc := pc s + 2\<rparr>))
      else Inr (report ''Unknown 0x8 instruction: 0x'' opcode s))"

text \<open>
  \<open>Dxyn\<close>. The test \<open>sprite & (0x80 >> col)\<close> and the index
  \<open>(y + row) * DISPLAY_WIDTH + (x + col)\<close>; the inner loop over the columns \<open>cols\<close> of one
  sprite byte, and the outer loop over the rows \<open>rows\<close>. \<open>x\<close> and \<open>y\<close> are the start
  coordinates, already reduced modulo the display's width and height.
\<close>

definition sprite_bit :: "u8 \<Rightarrow> nat \<Rightarrow> bool" where
  "sprite_bit sprite col \<longleftrightarrow> sprite AND drop_bit col 0x80 \<noteq> 0"

definition pixel_index :: "nat \<Rightarrow> nat \<Rightarrow> nat \<Rightarrow> nat \<Rightarrow> nat" where
  "pixel_index x y row col = (y + row) * DISPLAY_WIDTH + (x + col)"

fun draw_cols :: "u8 \<Rightarrow> nat \<Rightarrow> nat \<Rightarrow> nat \<Rightarrow> nat list \<Rightarrow> chip8 \<Rightarrow> fault + chip8" where
  "draw_cols sprite x y row [] s = Inr s"
| "draw_cols sprite x y row (col # cols) s =
     (if sprite_bit sprite col
      then (let index = pixel_index x y row col in
            if index < DISPLAY_WIDTH * DISPLAY_HEIGHT
            then draw_cols sprite x y row cols
                   (s\<lparr>V := (if display s ! index = 1 then (V s)[0xF := 1] else V s),
                      display := (display s)[index := display s ! index XOR 1]\<rparr>)
            else Inl (Undefined_Behaviour Display index))
      else draw_cols sprite x y row cols s)"

fun draw_rows :: "nat \<Rightarrow> nat \<Rightarrow> nat list \<Rightarrow> chip8 \<Rightarrow> fault + chip8" where
  "draw_rows x y [] s = Inr s"
| "draw_rows x y (row # rows) s =
     (if unat (I s) + row < MEMORY_SIZE
      then (case draw_cols (memory s ! (unat (I s) + row)) x y row [0..<8] s of
              Inl f \<Rightarrow> Inl f
            | Inr s' \<Rightarrow> draw_rows x y rows s')
      else Inl (Undefined_Behaviour Memory (unat (I s) + row)))"

definition exec_D :: "u16 \<Rightarrow> chip8 \<Rightarrow> fault + chip8" where
  "exec_D opcode s =
     (let x = unat (V s ! op_x opcode) mod DISPLAY_WIDTH;
          y = unat (V s ! op_y opcode) mod DISPLAY_HEIGHT;
          height = unat (opcode AND 0x000F)
      in case draw_rows x y [0..<height] (s\<lparr>V := (V s)[0xF := 0]\<rparr>) of
           Inl f \<Rightarrow> Inl f
         | Inr s' \<Rightarrow> Inr (s'\<lparr>drawFlag := True, pc := pc s' + 2\<rparr>))"

text \<open>Family E: \<open>keypad[V[x]]\<close> is indexed by a register's value.\<close>

definition exec_E :: "u16 \<Rightarrow> chip8 \<Rightarrow> fault + chip8" where
  "exec_E opcode s =
     (let k = unat (V s ! op_x opcode); n = opcode AND 0x00FF in
      if n = 0x9E then
        (if k < KEYPAD_SIZE
         then Inr (s\<lparr>pc := pc s + (if keypad s ! k \<noteq> 0 then 4 else 2)\<rparr>)
         else Inl (Undefined_Behaviour Keypad k))
      else if n = 0xA1 then
        (if k < KEYPAD_SIZE
         then Inr (s\<lparr>pc := pc s + (if keypad s ! k = 0 then 4 else 2)\<rparr>)
         else Inl (Undefined_Behaviour Keypad k))
      else Inr s)"

text \<open>The key scan of \<open>Fx0A\<close>: the first index of \<open>is\<close> whose key is down.\<close>

primrec scan_keys :: "nat list \<Rightarrow> u8 list \<Rightarrow> nat option" where
  "scan_keys [] kp = None"
| "scan_keys (i # is) kp = (if kp ! i \<noteq> 0 then Some i else scan_keys is kp)"

text \<open>The loops of \<open>Fx55\<close> and \<open>Fx65\<close> over the register indices \<open>is\<close>.\<close>

fun store_regs :: "nat list \<Rightarrow> chip8 \<Rightarrow> fault + chip8" where
  "store_regs [] s = Inr s"
| "store_regs (i # is) s =
     (if unat (I s) + i < MEMORY_SIZE
      then store_regs is (s\<lparr>memory := (memory s)[unat (I s) + i := V s ! i]\<rparr>)
      else Inl (Undefined_Behaviour Memory (unat (I s) + i)))"

fun load_regs :: "nat list \<Rightarrow> chip8 \<Rightarrow> fault + chip8" where
  "load_regs [] s = Inr s"
| "load_regs (i # is) s =
     (if unat (I s) + i < MEMORY_SIZE
      then load_regs is (s\<lparr>V := (V s)[i := memory s ! (unat (I s) + i)]\<rparr>)
      else Inl (Undefined_Behaviour Memory (unat (I s) + i)))"

definition exec_F :: "u16 \<Rightarrow> chip8 \<Rightarrow> fault + chip8" where
  "exec_F opcode s =
     (let x = op_x opcode; n = opcode AND 0x00FF; a = unat (I s) in
      if n = 0x07 then Inr (s\<lparr>V := (V s)[x := delayTimer s], pc := pc s + 2\<rparr>)
      else if n = 0x0A then
        (case scan_keys [0..<KEYPAD_SIZE] (keypad s) of
           None \<Rightarrow> Inr s
         | Some i \<Rightarrow> Inr (s\<lparr>V := (V s)[x := of_nat i], pc := pc s + 2\<rparr>))
      else if n = 0x15 then Inr (s\<lparr>delayTimer := V s ! x, pc := pc s + 2\<rparr>)
      else if n = 0x18 then Inr (s\<lparr>soundTimer := V s ! x, pc := pc s + 2\<rparr>)
      else if n = 0x1E then Inr (s\<lparr>I := I s + ucast (V s ! x), pc := pc s + 2\<rparr>)
      else if n = 0x29 then Inr (s\<lparr>I := ucast (V s ! x) * 5, pc := pc s + 2\<rparr>)
      else if n = 0x33 then
        (let value = V s ! x in
         if a < MEMORY_SIZE then
           if a + 1 < MEMORY_SIZE then
             if a + 2 < MEMORY_SIZE
             then Inr (s\<lparr>memory := (memory s)[a := value div 100,
                                                a + 1 := (value div 10) mod 10,
                                                a + 2 := value mod 10],
                         pc := pc s + 2\<rparr>)
             else Inl (Undefined_Behaviour Memory (a + 2))
           else Inl (Undefined_Behaviour Memory (a + 1))
         else Inl (Undefined_Behaviour Memory a))
      else if n = 0x55 then
        (case store_regs [0..<Suc x] s of
           Inl f \<Rightarrow> Inl f
         | Inr s' \<Rightarrow> Inr (s'\<lparr>pc := pc s' + 2\<rparr>))
      else if n = 0x65 then
        (case load_regs [0..<Suc x] s of
           Inl f \<Rightarrow> Inl f
         | Inr s' \<Rightarrow> Inr (s'\<lparr>pc := pc s' + 2\<rparr>))
      else Inr (report ''Unknown 0xF instruction: 0x'' opcode s))"

text \<open>
  The dispatch on \<open>opcode & 0xF000\<close>. \<open>rnd\<close> is the value that \<open>rand()\<close> returns in
  \<open>Cxnn\<close>.
\<close>

definition executeOpcode :: "nat \<Rightarrow> u16 \<Rightarrow> chip8 \<Rightarrow> fault + chip8" where
  "executeOpcode rnd opcode s =
     (let x = op_x opcode; y = op_y opcode; f = opcode AND 0xF000; v = V s in
      if f = 0x0000 then exec_0 opcode s
      else if f = 0x1000 then Inr (s\<lparr>pc := op_nnn opcode\<rparr>)
      else if f = 0x2000 then exec_2 opcode s
      else if f = 0x3000 then Inr (s\<lparr>pc := pc s + (if v ! x = op_nn opcode then 4 else 2)\<rparr>)
      else if f = 0x4000 then Inr (s\<lparr>pc := pc s + (if v ! x = op_nn opcode then 2 else 4)\<rparr>)
      else if f = 0x5000 then Inr (s\<lparr>pc := pc s + (if v ! x = v ! y then 4 else 2)\<rparr>)
      else if f = 0x6000 then Inr (s\<lparr>V := v[x := op_nn opcode], pc := pc s + 2\<rparr>)
      else if f = 0x7000 then Inr (s\<lparr>V := v[x := v ! x + op_nn opcode], pc := pc s + 2\<rparr>)
      else if f = 0x8000 then exec_8 opcode s
      else if f = 0x9000 then Inr (s\<lparr>pc := pc s + (if v ! x \<noteq> v ! y then 4 else 2)\<rparr>)
      else if f = 0xA000 then Inr (s\<lparr>I := op_nnn opcode, pc := pc s + 2\<rparr>)
      else if f = 0xB000 then Inr (s\<lparr>pc := op_nnn opcode + ucast (v ! 0)\<rparr>)
      else if f = 0xC000
      then Inr (s\<lparr>V := v[x := of_nat (rnd mod 256) AND op_nn opcode], pc := pc s + 2\<rparr>)
      else if f = 0xD000 then exec_D opcode s
      else if f = 0xE000 then exec_E opcode s
      else if f = 0xF000 then exec_F opcode s
      else Inr (report ''Unknown opcode: 0x'' opcode s))"

subsection \<open>emulateCycle, setKeyState, renderDisplay\<close>

definition emulateCycle :: "nat \<Rightarrow> chip8 \<Rightarrow> fault + chip8" where
  "emulateCycle rnd s =
     (case fetchOpcode s of
        Inl f \<Rightarrow> Inl f
      | Inr opcode \<Rightarrow>
          (case executeOpcode rnd opcode s of
             Inl f \<Rightarrow> Inl f
           | Inr s' \<Rightarrow> Inr (s'\<lparr>delayTimer := (if delayTimer s' > 0 then delayTimer s' - 1
                                               else delayTimer s'),
                                soundTimer := (if soundTimer s' > 0 then soundTimer s' - 1
                                               else soundTimer s')\<rparr>)))"

definition setKeyState :: "u8 \<Rightarrow> bool \<Rightarrow> chip8 \<Rightarrow> chip8" where
  "setKeyState key pressed s =
     (if unat key < KEYPAD_SIZE
      then s\<lparr>keypad := (keypad s)[unat key := (if pressed then 1 else 0)]\<rparr>
      else s)"

definition renderDisplay :: "chip8 \<Rightarrow> chip8" where
  "renderDisplay s = s\<lparr>drawFlag := False\<rparr>"

subsection \<open>The driver loop of main\<close>

text \<open>
  One iteration of the loop of \<open>main\<close>: the key events polled, one cycle, and the
  rendering when the draw flag is up. An input is the list of key events of an iteration
  and the value \<open>rand()\<close> would return in it. \<open>chip8_main\<close> constructs the machine, loads
  the ROM and runs the loop over the inputs given.
\<close>

type_synonym input = "(u8 \<times> bool) list \<times> nat"

definition main_iteration :: "input \<Rightarrow> chip8 \<Rightarrow> fault + chip8" where
  "main_iteration inp s =
     (case emulateCycle (snd inp) (foldl (\<lambda>t (key, pressed). setKeyState key pressed t) s (fst inp)) of
        Inl f \<Rightarrow> Inl f
      | Inr s' \<Rightarrow> Inr (if drawFlag s' then renderDisplay s' else s'))"

fun main_loop :: "input list \<Rightarrow> chip8 \<Rightarrow> fault + chip8" where
  "main_loop [] s = Inr s"
| "main_loop (inp # inps) s =
     (case main_iteration inp s of
        Inl f \<Rightarrow> Inl f
      | Inr s' \<Rightarrow> main_loop inps s')"

definition chip8_main :: "string \<Rightarrow> u8 list option \<Rightarrow> input list \<Rightarrow> fault + chip8" where
  "chip8_main filename file inps =
     (case loadROM filename file Chip8_init of
        Inl f \<Rightarrow> Inl f
      | Inr s \<Rightarrow> main_loop inps s)"

subsection \<open>Opcodes that no branch handles\<close>

text \<open>
  The opcodes for which \<open>executeOpcode\<close> reaches no handler: in family 0 all but \<open>00E0\<close>
  and \<open>00EE\<close>, in family 8 the low nibbles without a \<open>case\<close>, in families E and F the low
  bytes without a \<open>case\<close>. (Every other family handles each of its opcodes.)
\<close>

definition unrecognized :: "u16 \<Rightarrow> bool" where
  "unrecognized opcode \<longleftrightarrow>
     (opcode AND 0xF000 = 0x0000 \<and> opcode \<noteq> 0x00E0 \<and> opcode \<noteq> 0x00EE) \<or>
     (opcode AND 0xF000 = 0x8000 \<and>
        opcode AND 0x000F \<notin> set [0x0, 0x1, 0x2, 0x3, 0x4, 0x5, 0x6, 0x7, 0xE]) \<or>
     (opcode AND 0xF000 = 0xE000 \<and> opcode AND 0x00FF \<notin> set [0x9E, 0xA1]) \<or>
     (opcode AND 0xF000 = 0xF000 \<and>
        opcode AND 0x00FF \<notin> set [0x07, 0x0A, 0x15, 0x18, 0x1E, 0x29, 0x33, 0x55, 0x65])"

section \<open>Basic facts\<close>

lemma op_x_less: "op_x opcode < 16"
proof -
  have "unat (opcode AND 0x0F00) \<le> unat (0x0F00 :: u16)"
    by (rule word_and_le1 [THEN word_le_nat_alt [THEN iffD1]])
  then have "unat (opcode AND 0x0F00) div 256 < 16" by simp
  then show ?thesis
    by (simp add: op_x_def drop_bit_eq_div unat_div)
qed

lemma op_y_less: "op_y opcode < 16"
proof -
  have "unat (opcode AND 0x00F0) \<le> unat (0x00F0 :: u16)"
    by (rule word_and_le1 [THEN word_le_nat_alt [THEN iffD1]])
  then have "unat (opcode AND 0x00F0) div 16 < 16" by simp
  then show ?thesis
    by (simp add: op_y_def drop_bit_eq_div unat_div)
qed

lemma length_load_fontset: "length (load_fontset is mem) = length mem"
  by (induction "is" arbitrary: mem) auto

lemma valid_Chip8_init: "valid Chip8_init"
  by (simp add: valid_def Chip8_init_def length_load_fontset)

section \<open>Skip instructions\<close>



section \<open>The font address\<close>

text \<open>
  C2. The constructor stores the font at \<open>0x50\<close>, and \<open>Fx29\<close> computes \<open>I = Vx * 5\<close> with no
  base added. With \<open>V1 = 1\<close>, \<open>F129\<close> leaves \<open>I = 5\<close>, not \<open>0x55\<close>: the five bytes at 5 are
  zero, the glyph of digit 1 is at \<open>0x55\<close>.
\<close>

theorem font_address_Fx29:
  "executeOpcode 0 0xF129 (Chip8_init\<lparr>V := (V Chip8_init)[1 := 1]\<rparr>) =
     Inr (Chip8_init\<lparr>V := (V Chip8_init)[1 := 1], I := 5, pc := 0x202\<rparr>) \<and>
   (5 :: u16) \<noteq> 0x50 + 1 * 5 \<and>
   map (\<lambda>i. memory Chip8_init ! (5 + i)) [0..<5] = [0, 0, 0, 0, 0] \<and>
   map (\<lambda>i. memory Chip8_init ! (0x50 + 5 + i)) [0..<5] = [0x20, 0x60, 0x20, 0x20, 0x70]"
  by (simp add: executeOpcode_def exec_F_def Let_def op_x_def Chip8_init_def upt_rec fontset_def)

section \<open>Block copies between registers and memory\<close>

lemma store_regs_frame:
  "store_regs is s = Inr s' \<Longrightarrow>
     V s' = V s \<and> I s' = I s \<and> pc s' = pc s \<and> stack s' = stack s \<and> sp s' = sp s \<and>
     display s' = display s \<and> keypad s' = keypad s \<and> delayTimer s' = delayTimer s \<and>
     soundTimer s' = soundTimer s \<and> drawFlag s' = drawFlag s \<and> cerr s' = cerr s"
proof (induction "is" arbitrary: s)
  case Nil
  then show ?case by simp
next
  case (Cons i "is")
  let ?t = "s\<lparr>memory := (memory s)[unat (I s) + i := V s ! i]\<rparr>"
  from Cons.prems have "store_regs is ?t = Inr s'"
    by (simp split: if_splits)
  from Cons.IH [OF this] show ?case by simp
qed

lemma load_regs_frame:
  "load_regs is s = Inr s' \<Longrightarrow>
     memory s' = memory s \<and> I s' = I s \<and> pc s' = pc s \<and> stack s' = stack s \<and> sp s' = sp s \<and>
     display s' = display s \<and> keypad s' = keypad s \<and> delayTimer s' = delayTimer s \<and>
     soundTimer s' = soundTimer s \<and> drawFlag s' = drawFlag s \<and> cerr s' = cerr s"
proof (induction "is" arbitrary: s)
  case Nil
  then show ?case by simp
next
  case (Cons i "is")
  let ?t = "s\<lparr>V := (V s)[i := memory s ! (unat (I s) + i)]\<rparr>"
  from Cons.prems have "load_regs is ?t = Inr s'"
    by (simp split: if_splits)
  from Cons.IH [OF this] show ?case by simp
qed

lemma store_regs_defined:
  "(\<And>i. i \<in> set is \<Longrightarrow> unat (I s) + i < MEMORY_SIZE) \<Longrightarrow> \<exists>s'. store_regs is s = Inr s'"
  by (induction "is" arbitrary: s) auto

lemma load_regs_defined:
  "(\<And>i. i \<in> set is \<Longrightarrow> unat (I s) + i < MEMORY_SIZE) \<Longrightarrow> \<exists>s'. load_regs is s = Inr s'"
  by (induction "is" arbitrary: s) auto

lemma exec_Fx55:
  assumes "opcode AND 0xF000 = 0xF000" and "opcode AND 0x00FF = 0x55"
  shows "executeOpcode rnd opcode s =
           (case store_regs [0..<Suc (op_x opcode)] s of
              Inl f \<Rightarrow> Inl f
            | Inr s' \<Rightarrow> Inr (s'\<lparr>pc := pc s' + 2\<rparr>))"
  using assms by (simp add: executeOpcode_def exec_F_def Let_def)

lemma exec_Fx65:
  assumes "opcode AND 0xF000 = 0xF000" and "opcode AND 0x00FF = 0x65"
  shows "executeOpcode rnd opcode s =
           (case load_regs [0..<Suc (op_x opcode)] s of
              Inl f \<Rightarrow> Inl f
            | Inr s' \<Rightarrow> Inr (s'\<lparr>pc := pc s' + 2\<rparr>))"
  using assms by (simp add: executeOpcode_def exec_F_def Let_def)

lemma store_regs_overrun:
  "i \<in> set is \<Longrightarrow> MEMORY_SIZE \<le> unat (I s) + i \<Longrightarrow>
   \<exists>a \<ge> MEMORY_SIZE. store_regs is s = Inl (Undefined_Behaviour Memory a)"
proof (induction "is" arbitrary: s)
  case Nil
  then show ?case by simp
next
  case (Cons j js)
  show ?case
  proof (cases "unat (I s) + j < MEMORY_SIZE")
    case True
    let ?t = "s\<lparr>memory := (memory s)[unat (I s) + j := V s ! j]\<rparr>"
    from True Cons.prems have "i \<in> set js" by auto
    moreover from Cons.prems(2) have "MEMORY_SIZE \<le> unat (I ?t) + i" by simp
    ultimately have "\<exists>a \<ge> MEMORY_SIZE. store_regs js ?t = Inl (Undefined_Behaviour Memory a)"
      by (rule Cons.IH)
    with True show ?thesis by simp
  next
    case False
    then show ?thesis by simp
  qed
qed

lemma load_regs_overrun:
  "i \<in> set is \<Longrightarrow> MEMORY_SIZE \<le> unat (I s) + i \<Longrightarrow>
   \<exists>a \<ge> MEMORY_SIZE. load_regs is s = Inl (Undefined_Behaviour Memory a)"
proof (induction "is" arbitrary: s)
  case Nil
  then show ?case by simp
next
  case (Cons j js)
  show ?case
  proof (cases "unat (I s) + j < MEMORY_SIZE")
    case True
    let ?t = "s\<lparr>V := (V s)[j := memory s ! (unat (I s) + j)]\<rparr>"
    from True Cons.prems have "i \<in> set js" by auto
    moreover from Cons.prems(2) have "MEMORY_SIZE \<le> unat (I ?t) + i" by simp
    ultimately have "\<exists>a \<ge> MEMORY_SIZE. load_regs js ?t = Inl (Undefined_Behaviour Memory a)"
      by (rule Cons.IH)
    with True show ?thesis by simp
  next
    case False
    then show ?thesis by simp
  qed
qed

text \<open>
  C10, as the code has it. \<open>Fx55\<close> and \<open>Fx65\<close> index memory as \<open>I + i\<close> and never assign
  \<open>I\<close>. When the block lies inside memory, \<open>I + x \<le> 4095\<close>, the instruction completes,
  \<open>I\<close> is what it was and \<open>pc\<close> has advanced by 2. The code makes no range check: when
  \<open>I + x > 4095\<close> the loop indexes \<open>memory\<close> at or beyond 4096, which no rule of C++ gives
  a meaning, and the instruction has no result.
\<close>

theorem block_copy_in_range_keeps_I:
  assumes "opcode AND 0xF000 = 0xF000"
    and "opcode AND 0x00FF = 0x55 \<or> opcode AND 0x00FF = 0x65"
  shows "(unat (I s) + op_x opcode < MEMORY_SIZE \<longrightarrow>
            (\<exists>s'. executeOpcode rnd opcode s = Inr s' \<and> I s' = I s \<and> pc s' = pc s + 2)) \<and>
         (MEMORY_SIZE \<le> unat (I s) + op_x opcode \<longrightarrow>
            (\<exists>a \<ge> MEMORY_SIZE. executeOpcode rnd opcode s = Inl (Undefined_Behaviour Memory a)))"
proof (intro conjI impI)
  assume "unat (I s) + op_x opcode < MEMORY_SIZE"
  then have b: "\<And>i. i \<in> set [0..<Suc (op_x opcode)] \<Longrightarrow> unat (I s) + i < MEMORY_SIZE"
    by auto
  from assms(2) show "\<exists>s'. executeOpcode rnd opcode s = Inr s' \<and> I s' = I s \<and> pc s' = pc s + 2"
  proof
    assume n: "opcode AND 0x00FF = 0x55"
    from store_regs_defined [OF b] obtain t where t: "store_regs [0..<Suc (op_x opcode)] s = Inr t"
      by blast
    from store_regs_frame [OF t] t show ?thesis by (simp add: exec_Fx55 [OF assms(1) n])
  next
    assume n: "opcode AND 0x00FF = 0x65"
    from load_regs_defined [OF b] obtain t where t: "load_regs [0..<Suc (op_x opcode)] s = Inr t"
      by blast
    from load_regs_frame [OF t] t show ?thesis by (simp add: exec_Fx65 [OF assms(1) n])
  qed
next
  assume over: "MEMORY_SIZE \<le> unat (I s) + op_x opcode"
  have x: "op_x opcode \<in> set [0..<Suc (op_x opcode)]" by simp
  from assms(2) show "\<exists>a \<ge> MEMORY_SIZE. executeOpcode rnd opcode s = Inl (Undefined_Behaviour Memory a)"
  proof
    assume n: "opcode AND 0x00FF = 0x55"
    from store_regs_overrun [OF x over] obtain a where "MEMORY_SIZE \<le> a"
      and "store_regs [0..<Suc (op_x opcode)] s = Inl (Undefined_Behaviour Memory a)"
      by blast
    then show ?thesis by (auto simp: exec_Fx55 [OF assms(1) n])
  next
    assume n: "opcode AND 0x00FF = 0x65"
    from load_regs_overrun [OF x over] obtain a where "MEMORY_SIZE \<le> a"
      and "load_regs [0..<Suc (op_x opcode)] s = Inl (Undefined_Behaviour Memory a)"
      by blast
    then show ?thesis by (auto simp: exec_Fx65 [OF assms(1) n])
  qed
qed

theorem block_copy_in_range_keeps_I_witness:
  "(0xF255 :: u16) AND 0xF000 = 0xF000 \<and> (0xF265 :: u16) AND 0xF000 = 0xF000 \<and>
   (0xF255 :: u16) AND 0x00FF = 0x55 \<and> (0xF265 :: u16) AND 0x00FF = 0x65 \<and>
   op_x 0xF255 = 2 \<and> op_x 0xF265 = 2 \<and>
   unat (I (Chip8_init\<lparr>I := 0x300\<rparr>)) + op_x 0xF255 < MEMORY_SIZE \<and>
   (\<exists>s'. executeOpcode 0 0xF255 (Chip8_init\<lparr>I := 0x300\<rparr>) = Inr s' \<and> I s' = 0x300 \<and> pc s' = 0x202) \<and>
   (\<exists>s'. executeOpcode 0 0xF265 (Chip8_init\<lparr>I := 0x300\<rparr>) = Inr s' \<and> I s' = 0x300 \<and> pc s' = 0x202) \<and>
   MEMORY_SIZE \<le> unat (I (Chip8_init\<lparr>I := 0xFFE\<rparr>)) + op_x 0xF255 \<and>
   (\<exists>a \<ge> MEMORY_SIZE. executeOpcode 0 0xF255 (Chip8_init\<lparr>I := 0xFFE\<rparr>) =
          Inl (Undefined_Behaviour Memory a)) \<and>
   (\<exists>a \<ge> MEMORY_SIZE. executeOpcode 0 0xF265 (Chip8_init\<lparr>I := 0xFFE\<rparr>) =
          Inl (Undefined_Behaviour Memory a))"
proof -
  have x: "op_x 0xF255 = 2" "op_x 0xF265 = 2" by (simp_all add: op_x_def)
  from block_copy_in_range_keeps_I [of "0xF255" "Chip8_init\<lparr>I := 0x300\<rparr>" 0]
  have a: "\<exists>s'. executeOpcode 0 0xF255 (Chip8_init\<lparr>I := 0x300\<rparr>) = Inr s' \<and> I s' = 0x300 \<and> pc s' = 0x202"
    by (simp add: x Chip8_init_def)
  from block_copy_in_range_keeps_I [of "0xF265" "Chip8_init\<lparr>I := 0x300\<rparr>" 0]
  have b: "\<exists>s'. executeOpcode 0 0xF265 (Chip8_init\<lparr>I := 0x300\<rparr>) = Inr s' \<and> I s' = 0x300 \<and> pc s' = 0x202"
    by (simp add: x Chip8_init_def)
  from block_copy_in_range_keeps_I [of "0xF255" "Chip8_init\<lparr>I := 0xFFE\<rparr>" 0]
  have c: "\<exists>a \<ge> MEMORY_SIZE. executeOpcode 0 0xF255 (Chip8_init\<lparr>I := 0xFFE\<rparr>) =
          Inl (Undefined_Behaviour Memory a)"
    by (simp add: x)
  from block_copy_in_range_keeps_I [of "0xF265" "Chip8_init\<lparr>I := 0xFFE\<rparr>" 0]
  have d: "\<exists>a \<ge> MEMORY_SIZE. executeOpcode 0 0xF265 (Chip8_init\<lparr>I := 0xFFE\<rparr>) =
          Inl (Undefined_Behaviour Memory a)"
    by (simp add: x)
  from a b c d x show ?thesis by simp
qed

text \<open>
  C10 does not hold in every state. The ROM \<open>AF FF F1 55\<close> sets \<open>I = 0xFFF\<close> in its first
  cycle; in the second, \<open>F155\<close> stores \<open>V0\<close> at \<open>memory[4095]\<close> and then indexes
  \<open>memory[4096]\<close>, beyond the array: the instruction has no result, and nothing is said
  of \<open>I\<close> afterwards. The same holds for \<open>F165\<close>.
\<close>

theorem block_copy_past_memory_end:
  "chip8_main ''rom.ch8'' (Some [0xAF, 0xFF, 0xF1, 0x55]) [([], 0)] =
     Inr (Chip8_init\<lparr>memory := (memory Chip8_init)[0x200 := 0xAF, 0x201 := 0xFF,
                                                      0x202 := 0xF1, 0x203 := 0x55],
                     I := 0xFFF, pc := 0x202\<rparr>) \<and>
   chip8_main ''rom.ch8'' (Some [0xAF, 0xFF, 0xF1, 0x55]) [([], 0), ([], 0)] =
     Inl (Undefined_Behaviour Memory 4096) \<and>
   chip8_main ''rom.ch8'' (Some [0xAF, 0xFF, 0xF1, 0x65]) [([], 0), ([], 0)] =
     Inl (Undefined_Behaviour Memory 4096)"
  by (simp add: chip8_main_def loadROM_def main_iteration_def emulateCycle_def fetchOpcode_def
      executeOpcode_def exec_F_def op_x_def op_nnn_def Let_def upt_rec Chip8_init_def
      length_load_fontset)

section \<open>Addition and subtraction with the flag register\<close>

lemma exec_8xy4:
  assumes "opcode AND 0xF000 = 0x8000" and "opcode AND 0x000F = 0x4"
  shows "executeOpcode rnd opcode s =
     (let sum = (ucast (V s ! op_x opcode) + ucast (V s ! op_y opcode) :: u16);
          v1 = (V s)[0xF := (if sum > 0xFF then 1 else 0)]
      in Inr (s\<lparr>V := v1[op_x opcode := ucast (sum AND 0xFF)], pc := pc s + 2\<rparr>))"
  using assms by (simp add: executeOpcode_def exec_8_def Let_def)

lemma exec_8xy5:
  assumes "opcode AND 0xF000 = 0x8000" and "opcode AND 0x000F = 0x5"
  shows "executeOpcode rnd opcode s =
     (let v1 = (V s)[0xF := (if V s ! op_x opcode > V s ! op_y opcode then 1 else 0)]
      in Inr (s\<lparr>V := v1[op_x opcode := v1 ! op_x opcode - v1 ! op_y opcode], pc := pc s + 2\<rparr>))"
  using assms by (simp add: executeOpcode_def exec_8_def Let_def)

text \<open>
  C8, as the code has it. For registers \<open>x \<noteq> y\<close> with \<open>x \<noteq> 0xF\<close>: when \<open>Vx = 0xFF\<close> and
  \<open>Vy = 0x01\<close>, \<open>8xy4\<close> leaves \<open>VF = 1\<close> and \<open>Vx = 0x00\<close>; when moreover \<open>y \<noteq> 0xF\<close>,
  \<open>Vx = 0x01\<close> and \<open>Vy = 0x02\<close>, \<open>8xy5\<close> leaves \<open>VF = 0\<close> and \<open>Vx = 0xFF\<close>.
\<close>

theorem carry_borrow_wraparound:
  assumes "valid s" and "opcode AND 0xF000 = 0x8000" and "op_x opcode \<noteq> op_y opcode"
    and "op_x opcode \<noteq> 0xF"
  shows "(opcode AND 0x000F = 0x4 \<and> V s ! op_x opcode = 0xFF \<and> V s ! op_y opcode = 0x01 \<longrightarrow>
           (\<exists>s'. executeOpcode rnd opcode s = Inr s' \<and>
                 V s' ! 0xF = 1 \<and> V s' ! op_x opcode = 0x00)) \<and>
         (opcode AND 0x000F = 0x5 \<and> op_y opcode \<noteq> 0xF \<and>
          V s ! op_x opcode = 0x01 \<and> V s ! op_y opcode = 0x02 \<longrightarrow>
           (\<exists>s'. executeOpcode rnd opcode s = Inr s' \<and>
                 V s' ! 0xF = 0 \<and> V s' ! op_x opcode = 0xFF))"
proof -
  have len: "length (V s) = 16" using assms(1) by (simp add: valid_def)
  have x: "op_x opcode < 16" by (rule op_x_less)
  have add: "\<exists>s'. executeOpcode rnd opcode s = Inr s' \<and> V s' ! 0xF = 1 \<and> V s' ! op_x opcode = 0x00"
    if "opcode AND 0x000F = 0x4" "V s ! op_x opcode = 0xFF" "V s ! op_y opcode = 0x01"
    using that len x assms(4) by (simp add: exec_8xy4 [OF assms(2)] Let_def)
  have sub: "\<exists>s'. executeOpcode rnd opcode s = Inr s' \<and> V s' ! 0xF = 0 \<and> V s' ! op_x opcode = 0xFF"
    if "opcode AND 0x000F = 0x5" "op_y opcode \<noteq> 0xF"
       "V s ! op_x opcode = 0x01" "V s ! op_y opcode = 0x02"
    using that len x assms(4) by (simp add: exec_8xy5 [OF assms(2)] Let_def)
  from add sub show ?thesis by blast
qed

theorem carry_borrow_wraparound_witness:
  "valid (Chip8_init\<lparr>V := (V Chip8_init)[3 := 0xFF, 7 := 0x01]\<rparr>) \<and>
   valid (Chip8_init\<lparr>V := (V Chip8_init)[3 := 0x01, 7 := 0x02]\<rparr>) \<and>
   (0x8374 :: u16) AND 0xF000 = 0x8000 \<and> (0x8375 :: u16) AND 0xF000 = 0x8000 \<and>
   op_x 0x8374 = 3 \<and> op_y 0x8374 = 7 \<and> op_x 0x8375 = 3 \<and> op_y 0x8375 = 7 \<and>
   (\<exists>s'. executeOpcode 0 0x8374 (Chip8_init\<lparr>V := (V Chip8_init)[3 := 0xFF, 7 := 0x01]\<rparr>) = Inr s' \<and>
         V s' ! 0xF = 1 \<and> V s' ! 3 = 0) \<and>
   (\<exists>s'. executeOpcode 0 0x8375 (Chip8_init\<lparr>V := (V Chip8_init)[3 := 0x01, 7 := 0x02]\<rparr>) = Inr s' \<and>
         V s' ! 0xF = 0 \<and> V s' ! 3 = 0xFF)"
  using carry_borrow_wraparound [of "Chip8_init\<lparr>V := (V Chip8_init)[3 := 0xFF, 7 := 0x01]\<rparr>" "0x8374" 0]
        carry_borrow_wraparound [of "Chip8_init\<lparr>V := (V Chip8_init)[3 := 0x01, 7 := 0x02]\<rparr>" "0x8375" 0]
        valid_Chip8_init
  by (simp add: valid_def op_x_def op_y_def Chip8_init_def)

text \<open>
  C8 does not hold for all \<open>x \<noteq> y\<close>: the flag is stored in \<open>V[0xF]\<close> before the result is
  stored in \<open>V[x]\<close>, and before \<open>8xy5\<close> reads its operands. With \<open>x = 0xF\<close>, \<open>8F04\<close> leaves
  \<open>VF = 0\<close> and \<open>8F05\<close> leaves \<open>VF = 0xFE\<close>; with \<open>y = 0xF\<close>, \<open>80F5\<close> leaves \<open>V0 = 0x01\<close>.
\<close>

theorem carry_borrow_VF_operand:
  "op_x 0x8F04 = 0xF \<and> op_y 0x8F04 = 0 \<and>
   executeOpcode 0 0x8F04 (Chip8_init\<lparr>V := [0x01, 0, 0, 0, 0, 0, 0, 0, 0, 0, 0, 0, 0, 0, 0, 0xFF]\<rparr>) =
     Inr (Chip8_init\<lparr>V := [0x01, 0, 0, 0, 0, 0, 0, 0, 0, 0, 0, 0, 0, 0, 0, 0x00], pc := 0x202\<rparr>) \<and>
   op_x 0x8F05 = 0xF \<and> op_y 0x8F05 = 0 \<and>
   executeOpcode 0 0x8F05 (Chip8_init\<lparr>V := [0x02, 0, 0, 0, 0, 0, 0, 0, 0, 0, 0, 0, 0, 0, 0, 0x01]\<rparr>) =
     Inr (Chip8_init\<lparr>V := [0x02, 0, 0, 0, 0, 0, 0, 0, 0, 0, 0, 0, 0, 0, 0, 0xFE], pc := 0x202\<rparr>) \<and>
   op_x 0x80F5 = 0 \<and> op_y 0x80F5 = 0xF \<and>
   executeOpcode 0 0x80F5 (Chip8_init\<lparr>V := [0x01, 0, 0, 0, 0, 0, 0, 0, 0, 0, 0, 0, 0, 0, 0, 0x02]\<rparr>) =
     Inr (Chip8_init\<lparr>V := [0x01, 0, 0, 0, 0, 0, 0, 0, 0, 0, 0, 0, 0, 0, 0, 0x00], pc := 0x202\<rparr>)"
  by (simp add: executeOpcode_def exec_8_def Let_def op_x_def op_y_def Chip8_init_def)

section \<open>Fetching an opcode\<close>

lemma unat_ucast_u8: "unat (ucast (b :: u8) :: u16) = unat b"
proof -
  have "unat b < 2 ^ 8" using unsigned_less [of b] by simp
  then have "unat b < 2 ^ 16" by simp
  then show ?thesis by (simp add: unsigned_ucast_eq take_bit_nat_eq_self)
qed

lemma unat_shift_u8: "unat (push_bit 8 (ucast (a :: u8)) :: u16) = 256 * unat a"
proof -
  have "unat a < 2 ^ 8" using unsigned_less [of a] by simp
  then have "256 * unat a < 2 ^ 16" by simp
  then show ?thesis
    by (simp add: push_bit_eq_mult unat_word_ariths unat_ucast_u8)
qed

lemma big_endian:
  fixes a b :: u8
  shows "unat (push_bit 8 (ucast a) OR ucast b :: u16) = 256 * unat a + unat b"
proof -
  have "push_bit 8 (ucast a :: u16) AND ucast b = 0"
    by (rule bit_eqI) (auto simp add: bit_simps dest: bit_imp_le_length)
  then have "push_bit 8 (ucast a) OR (ucast b :: u16) = push_bit 8 (ucast a) + ucast b"
    by (simp add: disjunctive_add_eq_or)
  moreover have "unat (push_bit 8 (ucast a) + ucast b :: u16) = 256 * unat a + unat b"
  proof -
    have "unat a < 2 ^ 8" "unat b < 2 ^ 8" using unsigned_less [of a] unsigned_less [of b] by simp_all
    then have "256 * unat a + unat b < 2 ^ 16" by simp
    then show ?thesis
      by (simp add: unat_word_ariths unat_shift_u8 unat_ucast_u8)
  qed
  ultimately show ?thesis by simp
qed


text \<open>
  C6, as the code has it. When \<open>pc + 1 \<le> 4095\<close>, the fetch returns the opcode whose value is
  256 times the byte at \<open>pc\<close> plus the byte at \<open>pc + 1\<close>. The code makes no range check:
  when \<open>pc + 1 > 4095\<close> it indexes \<open>memory\<close> at or beyond 4096, which no rule of C++ gives
  a meaning; no error is reported.
\<close>

theorem fetch_big_endian_unchecked:
  "(unat (pc s) + 1 < MEMORY_SIZE \<longrightarrow>
      (\<exists>opcode. fetchOpcode s = Inr opcode \<and>
         unat opcode = 256 * unat (memory s ! unat (pc s)) + unat (memory s ! (unat (pc s) + 1)))) \<and>
   (unat (pc s) + 1 \<ge> MEMORY_SIZE \<longrightarrow>
      (\<exists>a. a \<ge> MEMORY_SIZE \<and> fetchOpcode s = Inl (Undefined_Behaviour Memory a)))"
  by (simp add: fetchOpcode_def big_endian)

theorem fetch_big_endian_unchecked_witness:
  "unat (pc (Chip8_init\<lparr>memory := (memory Chip8_init)[0x200 := 0x12, 0x201 := 0x34]\<rparr>)) + 1 < MEMORY_SIZE \<and>
   fetchOpcode (Chip8_init\<lparr>memory := (memory Chip8_init)[0x200 := 0x12, 0x201 := 0x34]\<rparr>) = Inr 0x1234 \<and>
   unat (pc (Chip8_init\<lparr>pc := 0x0FFF\<rparr>)) + 1 \<ge> MEMORY_SIZE \<and>
   fetchOpcode (Chip8_init\<lparr>pc := 0x0FFF\<rparr>) = Inl (Undefined_Behaviour Memory 4096)"
  using fetch_big_endian_unchecked [of "Chip8_init\<lparr>memory := (memory Chip8_init)[0x200 := 0x12, 0x201 := 0x34]\<rparr>"]
        fetch_big_endian_unchecked [of "Chip8_init\<lparr>pc := 0x0FFF\<rparr>"]
  by (simp add: fetchOpcode_def Chip8_init_def length_load_fontset)

text \<open>
  C6 does not hold at \<open>pc = 0x0FFF\<close>: the fetch evaluates \<open>memory[4096]\<close>, an access that
  nothing checks.
\<close>

theorem fetch_past_memory_end:
  "unat (pc (Chip8_init\<lparr>pc := 0x0FFF\<rparr>)) + 1 > 4095 \<and>
   fetchOpcode (Chip8_init\<lparr>pc := 0x0FFF\<rparr>) = Inl (Undefined_Behaviour Memory 4096)"
  by (simp add: fetchOpcode_def Chip8_init_def)

section \<open>Opcodes that no branch handles\<close>

lemma exec_unrecognized:
  assumes "unrecognized opcode"
  shows "executeOpcode rnd opcode s =
     Inr (s\<lparr>cerr := cerr s @
            (if opcode AND 0xF000 = 0x8000
             then [''Unknown 0x8 instruction: 0x'' @ hex_nat (unat opcode)]
             else if opcode AND 0xF000 = 0xF000
             then [''Unknown 0xF instruction: 0x'' @ hex_nat (unat opcode)]
             else [])\<rparr>)"
proof -
  consider
    (zero) "opcode AND 0xF000 = 0x0000" "opcode \<noteq> 0x00E0" "opcode \<noteq> 0x00EE"
  | (eight) "opcode AND 0xF000 = 0x8000"
       "opcode AND 0x000F \<notin> set [0x0, 0x1, 0x2, 0x3, 0x4, 0x5, 0x6, 0x7, 0xE]"
  | (keys) "opcode AND 0xF000 = 0xE000" "opcode AND 0x00FF \<notin> set [0x9E, 0xA1]"
  | (misc) "opcode AND 0xF000 = 0xF000"
       "opcode AND 0x00FF \<notin> set [0x07, 0x0A, 0x15, 0x18, 0x1E, 0x29, 0x33, 0x55, 0x65]"
    using assms unfolding unrecognized_def by blast
  then show ?thesis
  proof cases
    case zero
    then show ?thesis by (simp add: executeOpcode_def exec_0_def Let_def)
  next
    case eight
    then show ?thesis by (simp add: executeOpcode_def exec_8_def report_def Let_def)
  next
    case keys
    then show ?thesis by (simp add: executeOpcode_def exec_E_def Let_def)
  next
    case misc
    then show ?thesis by (simp add: executeOpcode_def exec_F_def report_def Let_def)
  qed
qed

text \<open>
  C3, as the code has it. Executing an opcode that no branch handles does not fail and
  changes nothing but the error stream: \<open>pc\<close> is not advanced. In families 8 and F one
  line naming the opcode in hexadecimal (and not \<open>pc\<close>) is written; in families 0 and E
  nothing is written. A cycle that fetched such an opcode fetches the same opcode again.
\<close>

theorem unrecognized_opcode_keeps_pc:
  assumes "unrecognized opcode"
  shows "(\<exists>msgs. executeOpcode rnd opcode s = Inr (s\<lparr>cerr := cerr s @ msgs\<rparr>) \<and>
            msgs = (if opcode AND 0xF000 = 0x8000
                    then [''Unknown 0x8 instruction: 0x'' @ hex_nat (unat opcode)]
                    else if opcode AND 0xF000 = 0xF000
                    then [''Unknown 0xF instruction: 0x'' @ hex_nat (unat opcode)]
                    else [])) \<and>
         (fetchOpcode s = Inr opcode \<longrightarrow>
            (\<exists>s'. emulateCycle rnd s = Inr s' \<and> pc s' = pc s \<and> fetchOpcode s' = Inr opcode))"
  by (simp add: exec_unrecognized [OF assms] emulateCycle_def fetchOpcode_def)

theorem unrecognized_opcode_keeps_pc_witness:
  "unrecognized 0xF0FF \<and>
   executeOpcode 0 0xF0FF Chip8_init =
     Inr (Chip8_init\<lparr>cerr := [''Unknown 0xF instruction: 0xf0ff'']\<rparr>) \<and>
   fetchOpcode (Chip8_init\<lparr>memory := (memory Chip8_init)[0x200 := 0xF0, 0x201 := 0xFF]\<rparr>) = Inr 0xF0FF \<and>
   (\<exists>s'. emulateCycle 0 (Chip8_init\<lparr>memory := (memory Chip8_init)[0x200 := 0xF0, 0x201 := 0xFF]\<rparr>) = Inr s' \<and>
         pc s' = 0x200 \<and> fetchOpcode s' = Inr 0xF0FF)"
  using unrecognized_opcode_keeps_pc [of "0xF0FF" 0 Chip8_init]
    unrecognized_opcode_keeps_pc [of "0xF0FF" 0 "Chip8_init\<lparr>memory := (memory Chip8_init)[0x200 := 0xF0, 0x201 := 0xFF]\<rparr>"]
  by (simp add: unrecognized_def fetchOpcode_def Chip8_init_def length_load_fontset hex_nat.simps hex_digit_def)

text \<open>
  C3 does not hold at opcode \<open>8008\<close>: \<open>pc\<close> stays at \<open>0x200\<close>, and the line written names
  the opcode only. Opcode \<open>E000\<close> is not reported at all.
\<close>

theorem unrecognized_opcode_no_advance:
  "unrecognized 0x8008 \<and>
   executeOpcode 0 0x8008 Chip8_init =
     Inr (Chip8_init\<lparr>cerr := [''Unknown 0x8 instruction: 0x8008'']\<rparr>) \<and>
   pc (Chip8_init\<lparr>cerr := [''Unknown 0x8 instruction: 0x8008'']\<rparr>) = pc Chip8_init \<and>
   pc Chip8_init \<noteq> pc Chip8_init + 2 \<and>
   unrecognized 0xE000 \<and> executeOpcode 0 0xE000 Chip8_init = Inr Chip8_init"
  by (simp add: unrecognized_def executeOpcode_def exec_8_def exec_E_def report_def Let_def
      Chip8_init_def hex_nat.simps hex_digit_def)

section \<open>Waiting for a key\<close>

lemma scan_keys_append:
  "scan_keys (xs @ ys) kp = (case scan_keys xs kp of None \<Rightarrow> scan_keys ys kp | Some i \<Rightarrow> Some i)"
  by (induction xs) auto

lemma scan_keys_None: "scan_keys is kp = None \<longleftrightarrow> (\<forall>i \<in> set is. kp ! i = 0)"
  by (induction "is") auto

lemma scan_keys_first:
  assumes "k < n" and "kp ! k \<noteq> 0" and "\<forall>i < k. kp ! i = 0"
  shows "scan_keys [0..<n] kp = Some k"
proof -
  have "[0..<n] = [0..<k] @ k # [Suc k..<n]"
    using assms(1) by (metis less_imp_le_nat upt_add_eq_append upt_conv_Cons le0 le_add_diff_inverse)
  moreover have "scan_keys [0..<k] kp = None"
    using assms(3) by (simp add: scan_keys_None)
  ultimately show ?thesis using assms(2) by (simp add: scan_keys_append)
qed

lemma exec_Fx0A:
  assumes "opcode AND 0xF000 = 0xF000" and "opcode AND 0x00FF = 0x0A"
  shows "executeOpcode rnd opcode s =
           (case scan_keys [0..<KEYPAD_SIZE] (keypad s) of
              None \<Rightarrow> Inr s
            | Some i \<Rightarrow> Inr (s\<lparr>V := (V s)[op_x opcode := of_nat i], pc := pc s + 2\<rparr>))"
  using assms by (simp add: executeOpcode_def exec_F_def Let_def)

text \<open>
  C4, as the code has it. In a state whose current instruction is \<open>Fx0A\<close>: when no key of
  the sixteen is down, one cycle leaves \<open>pc\<close> and everything else unchanged except the two
  timers, which are decremented when nonzero in this cycle as in any other; when \<open>k\<close> is the
  lowest key that is down, one cycle stores \<open>k\<close> in \<open>Vx\<close>, advances \<open>pc\<close> by 2 and
  decrements the timers in the same way.
\<close>

theorem wait_for_key_ticks_timers:
  assumes "fetchOpcode s = Inr opcode" and "opcode AND 0xF000 = 0xF000"
    and "opcode AND 0x00FF = 0x0A"
  shows "((\<forall>i < KEYPAD_SIZE. keypad s ! i = 0) \<longrightarrow>
            emulateCycle rnd s =
              Inr (s\<lparr>delayTimer := (if delayTimer s > 0 then delayTimer s - 1 else delayTimer s),
                      soundTimer := (if soundTimer s > 0 then soundTimer s - 1 else soundTimer s)\<rparr>)) \<and>
         (\<forall>k < KEYPAD_SIZE. keypad s ! k \<noteq> 0 \<and> (\<forall>i < k. keypad s ! i = 0) \<longrightarrow>
            emulateCycle rnd s =
              Inr (s\<lparr>V := (V s)[op_x opcode := of_nat k], pc := pc s + 2,
                      delayTimer := (if delayTimer s > 0 then delayTimer s - 1 else delayTimer s),
                      soundTimer := (if soundTimer s > 0 then soundTimer s - 1 else soundTimer s)\<rparr>))"
proof (intro conjI allI impI)
  assume "\<forall>i < KEYPAD_SIZE. keypad s ! i = 0"
  then have "scan_keys [0..<KEYPAD_SIZE] (keypad s) = None"
    by (simp add: scan_keys_None)
  then show "emulateCycle rnd s =
              Inr (s\<lparr>delayTimer := (if delayTimer s > 0 then delayTimer s - 1 else delayTimer s),
                      soundTimer := (if soundTimer s > 0 then soundTimer s - 1 else soundTimer s)\<rparr>)"
    by (simp add: emulateCycle_def assms(1) exec_Fx0A [OF assms(2,3)])
next
  fix k assume "k < KEYPAD_SIZE" and "keypad s ! k \<noteq> 0 \<and> (\<forall>i < k. keypad s ! i = 0)"
  then have "scan_keys [0..<KEYPAD_SIZE] (keypad s) = Some k"
    by (intro scan_keys_first) simp_all
  then show "emulateCycle rnd s =
              Inr (s\<lparr>V := (V s)[op_x opcode := of_nat k], pc := pc s + 2,
                      delayTimer := (if delayTimer s > 0 then delayTimer s - 1 else delayTimer s),
                      soundTimer := (if soundTimer s > 0 then soundTimer s - 1 else soundTimer s)\<rparr>)"
    by (simp add: emulateCycle_def assms(1) exec_Fx0A [OF assms(2,3)])
qed


theorem wait_for_key_ticks_timers_witness:
  "fetchOpcode (Chip8_init\<lparr>memory := (memory Chip8_init)[0x200 := 0xF3, 0x201 := 0x0A],
                           delayTimer := 5\<rparr>) = Inr 0xF30A \<and>
   (0xF30A :: u16) AND 0xF000 = 0xF000 \<and> (0xF30A :: u16) AND 0x00FF = 0x0A \<and> op_x 0xF30A = 3 \<and>
   emulateCycle 0 (Chip8_init\<lparr>memory := (memory Chip8_init)[0x200 := 0xF3, 0x201 := 0x0A],
                               delayTimer := 5\<rparr>) =
     Inr (Chip8_init\<lparr>memory := (memory Chip8_init)[0x200 := 0xF3, 0x201 := 0x0A],
                     delayTimer := 4\<rparr>) \<and>
   emulateCycle 0 (Chip8_init\<lparr>memory := (memory Chip8_init)[0x200 := 0xF3, 0x201 := 0x0A],
                               keypad := (keypad Chip8_init)[7 := 1, 9 := 1],
                               delayTimer := 5\<rparr>) =
     Inr (Chip8_init\<lparr>memory := (memory Chip8_init)[0x200 := 0xF3, 0x201 := 0x0A],
                     V := (V Chip8_init)[3 := 7], pc := 0x202,
                     keypad := (keypad Chip8_init)[7 := 1, 9 := 1],
                     delayTimer := 4\<rparr>)"
proof -
  let ?m = "(memory Chip8_init)[0x200 := 0xF3, 0x201 := 0x0A]"
  let ?a = "Chip8_init\<lparr>memory := ?m, delayTimer := 5\<rparr>"
  let ?b = "Chip8_init\<lparr>memory := ?m, keypad := (keypad Chip8_init)[7 := 1, 9 := 1], delayTimer := 5\<rparr>"
  have fa: "fetchOpcode ?a = Inr 0xF30A" and fb: "fetchOpcode ?b = Inr 0xF30A"
    by (simp_all add: fetchOpcode_def Chip8_init_def length_load_fontset)
  have x: "op_x 0xF30A = 3" by (simp add: op_x_def)
  have "\<forall>i < KEYPAD_SIZE. keypad ?a ! i = 0" by (simp add: Chip8_init_def)
  with wait_for_key_ticks_timers [of ?a "0xF30A" 0, OF fa]
  have a: "emulateCycle 0 ?a = Inr (Chip8_init\<lparr>memory := ?m, delayTimer := 4\<rparr>)"
    by (simp add: Chip8_init_def)
  have "keypad ?b ! 7 \<noteq> 0 \<and> (\<forall>i < 7. keypad ?b ! i = 0)" by (simp add: Chip8_init_def)
  with wait_for_key_ticks_timers [of ?b "0xF30A" 0, OF fb, THEN conjunct2, rule_format, of 7]
  have b: "emulateCycle 0 ?b =
     Inr (Chip8_init\<lparr>memory := ?m, V := (V Chip8_init)[3 := 7], pc := 0x202,
                     keypad := (keypad Chip8_init)[7 := 1, 9 := 1], delayTimer := 4\<rparr>)"
    by (simp add: x Chip8_init_def)
  from fa x a b show ?thesis by simp
qed

text \<open>
  C4 does not hold where a timer is nonzero: with \<open>F30A\<close> at \<open>0x200\<close>, no key down, the
  delay timer at 5 and the sound timer at 2, one cycle leaves the timers at 4 and 1.
\<close>

theorem blocked_cycle_decrements_timers:
  "fetchOpcode (Chip8_init\<lparr>memory := (memory Chip8_init)[0x200 := 0xF3, 0x201 := 0x0A],
                           delayTimer := 5, soundTimer := 2\<rparr>) = Inr 0xF30A \<and>
   scan_keys [0..<KEYPAD_SIZE] (keypad Chip8_init) = None \<and>
   emulateCycle 0 (Chip8_init\<lparr>memory := (memory Chip8_init)[0x200 := 0xF3, 0x201 := 0x0A],
                               delayTimer := 5, soundTimer := 2\<rparr>) =
     Inr (Chip8_init\<lparr>memory := (memory Chip8_init)[0x200 := 0xF3, 0x201 := 0x0A],
                     delayTimer := 4, soundTimer := 1\<rparr>)"
proof -
  have "scan_keys [0..<KEYPAD_SIZE] (keypad Chip8_init) = None"
    by (simp add: scan_keys_None Chip8_init_def)
  then show ?thesis
    by (simp add: emulateCycle_def fetchOpcode_def exec_Fx0A Chip8_init_def length_load_fontset)
qed

section \<open>Loading a ROM\<close>

lemma copy_rom_overrun:
  "i \<le> 3584 \<Longrightarrow> 3584 < i + length bs \<Longrightarrow>
   copy_rom i bs s = Inl (Undefined_Behaviour Memory MEMORY_SIZE)"
proof (induction bs arbitrary: i s)
  case Nil
  then show ?case by simp
next
  case (Cons b bs)
  show ?case
  proof (cases "i = 3584")
    case True
    then show ?thesis by simp
  next
    case False
    with Cons.prems have "i < 3584" by simp
    with Cons.prems Cons.IH [of "Suc i"] show ?thesis by simp
  qed
qed

lemma copy_rom_fits:
  "i + length bs \<le> 3584 \<Longrightarrow> length (memory s) = MEMORY_SIZE \<Longrightarrow>
   copy_rom i bs s =
     Inr (s\<lparr>memory := take (PROGRAM_START + i) (memory s) @ bs @
                        drop (PROGRAM_START + i + length bs) (memory s)\<rparr>)"
proof (induction bs arbitrary: i s)
  case Nil
  then show ?case by simp
next
  case (Cons b bs)
  let ?t = "s\<lparr>memory := (memory s)[PROGRAM_START + i := b]\<rparr>"
  from Cons.prems have i: "PROGRAM_START + i < MEMORY_SIZE" by simp
  from Cons.prems have "copy_rom (Suc i) bs ?t =
     Inr (?t\<lparr>memory := take (PROGRAM_START + Suc i) (memory ?t) @ bs @
                        drop (PROGRAM_START + Suc i + length bs) (memory ?t)\<rparr>)"
    by (intro Cons.IH) simp_all
  moreover have "take (PROGRAM_START + Suc i) (memory ?t) = take (PROGRAM_START + i) (memory s) @ [b]"
    using i Cons.prems(2) by (subst add_Suc_right, subst take_Suc_conv_app_nth) simp_all
  ultimately show ?case using i by (simp add: add.assoc)
qed

text \<open>
  C5. The size check of \<open>loadROM\<close> compares with \<open>MEMORY_SIZE\<close>, not with
  \<open>MEMORY_SIZE - PROGRAM_START\<close>. A ROM of 3585 bytes passes it; the copy loop then writes
  3584 bytes and indexes \<open>memory[4096]\<close> for the last one. (A ROM of exactly 3584 bytes is
  copied to \<open>0x200\<close>, lemma \<open>loadROM_exact_size\<close>; one of more than 4096 bytes ends the
  process, lemma \<open>loadROM_too_large_for_memory\<close>.)
\<close>

theorem loadROM_one_byte_too_large:
  "length (replicate 3585 (0xAA :: u8)) = MEMORY_SIZE - PROGRAM_START + 1 \<and>
   loadROM ''rom.ch8'' (Some (replicate 3585 0xAA)) Chip8_init =
     Inl (Undefined_Behaviour Memory MEMORY_SIZE)"
  by (simp add: loadROM_def copy_rom_overrun)

lemma loadROM_exact_size:
  assumes "length bs = MEMORY_SIZE - PROGRAM_START" and "valid s"
  shows "loadROM name (Some bs) s = Inr (s\<lparr>memory := take PROGRAM_START (memory s) @ bs\<rparr>)"
  using assms copy_rom_fits [of 0 bs s] by (simp add: loadROM_def valid_def)

lemma loadROM_too_large_for_memory:
  assumes "length bs > MEMORY_SIZE"
  shows "loadROM name (Some bs) s =
           Inl (Exit_Process 1 (cerr s @ [''ROM FILE size exceeded limits'']))"
  using assms by (simp add: loadROM_def)

section \<open>What the draw loops leave alone\<close>

lemma draw_cols_frame:
  "draw_cols sprite x y row cols s = Inr s' \<Longrightarrow>
     memory s' = memory s \<and> I s' = I s \<and> pc s' = pc s \<and> stack s' = stack s \<and> sp s' = sp s \<and>
     keypad s' = keypad s \<and> delayTimer s' = delayTimer s \<and> soundTimer s' = soundTimer s \<and>
     drawFlag s' = drawFlag s \<and> cerr s' = cerr s \<and>
     length (V s') = length (V s) \<and> length (display s') = length (display s)"
proof (induction cols arbitrary: s)
  case Nil
  then show ?case by simp
next
  case (Cons col cols)
  show ?case
  proof (cases "sprite_bit sprite col")
    case True
    let ?index = "pixel_index x y row col"
    let ?t = "s\<lparr>V := (if display s ! ?index = 1 then (V s)[0xF := 1] else V s),
               display := (display s)[?index := display s ! ?index XOR 1]\<rparr>"
    from Cons.prems True have "draw_cols sprite x y row cols ?t = Inr s'"
      by (simp add: Let_def split: if_splits)
    from Cons.IH [OF this] show ?thesis by simp
  next
    case False
    with Cons.prems have "draw_cols sprite x y row cols s = Inr s'" by simp
    from Cons.IH [OF this] show ?thesis .
  qed
qed

lemma draw_rows_frame:
  "draw_rows x y rows s = Inr s' \<Longrightarrow>
     memory s' = memory s \<and> I s' = I s \<and> pc s' = pc s \<and> stack s' = stack s \<and> sp s' = sp s \<and>
     keypad s' = keypad s \<and> delayTimer s' = delayTimer s \<and> soundTimer s' = soundTimer s \<and>
     drawFlag s' = drawFlag s \<and> cerr s' = cerr s \<and>
     length (V s') = length (V s) \<and> length (display s') = length (display s)"
proof (induction rows arbitrary: s)
  case Nil
  then show ?case by simp
next
  case (Cons row rows)
  from Cons.prems obtain t where
    t: "draw_cols (memory s ! (unat (I s) + row)) x y row [0..<8] s = Inr t"
    and r: "draw_rows x y rows t = Inr s'"
    by (auto split: if_splits sum.splits)
  from draw_cols_frame [OF t] Cons.IH [OF r] show ?case by simp
qed

section \<open>The stack pointer\<close>

lemma exec_0_sp:
  "exec_0 opcode s = Inr s' \<Longrightarrow> unat (sp s) \<le> STACK_SIZE \<Longrightarrow> unat (sp s') \<le> STACK_SIZE"
  by (auto simp: exec_0_def Let_def split: if_splits)

lemma exec_2_sp:
  "exec_2 opcode s = Inr s' \<Longrightarrow> unat (sp s') \<le> STACK_SIZE"
  by (auto simp: exec_2_def unat_word_ariths split: if_splits)

lemma exec_8_sp: "exec_8 opcode s = Inr s' \<Longrightarrow> sp s' = sp s"
  by (auto simp: exec_8_def Let_def report_def split: if_splits)

lemma exec_D_sp: "exec_D opcode s = Inr s' \<Longrightarrow> sp s' = sp s"
  by (auto simp: exec_D_def Let_def split: sum.splits dest!: draw_rows_frame)

lemma exec_E_sp: "exec_E opcode s = Inr s' \<Longrightarrow> sp s' = sp s"
  by (auto simp: exec_E_def Let_def split: if_splits)

lemma exec_F_sp: "exec_F opcode s = Inr s' \<Longrightarrow> sp s' = sp s"
  by (auto simp: exec_F_def Let_def report_def split: if_splits sum.splits option.splits
      dest!: store_regs_frame load_regs_frame)

lemma executeOpcode_sp:
  assumes "executeOpcode rnd opcode s = Inr s'" and "unat (sp s) \<le> STACK_SIZE"
  shows "unat (sp s') \<le> STACK_SIZE"
  using assms
  by (auto simp: executeOpcode_def Let_def report_def split: if_splits
      dest: exec_0_sp exec_2_sp exec_8_sp exec_D_sp exec_E_sp exec_F_sp)


lemma emulateCycle_sp:
  assumes "emulateCycle rnd s = Inr s'" and "unat (sp s) \<le> STACK_SIZE"
  shows "unat (sp s') \<le> STACK_SIZE"
proof -
  from assms(1) obtain opcode t where "executeOpcode rnd opcode s = Inr t" and "sp s' = sp t"
    by (auto simp: emulateCycle_def split: sum.splits)
  with executeOpcode_sp [of rnd opcode s t] assms(2) show ?thesis by simp
qed

lemma setKeyState_sp: "sp (setKeyState key pressed s) = sp s"
  by (simp add: setKeyState_def)

lemma key_events_sp:
  "sp (foldl (\<lambda>t (key, pressed). setKeyState key pressed t) s keys) = sp s"
  by (induction keys arbitrary: s) (auto simp: setKeyState_sp)

lemma main_iteration_sp:
  assumes "main_iteration inp s = Inr s'" and "unat (sp s) \<le> STACK_SIZE"
  shows "unat (sp s') \<le> STACK_SIZE"
proof -
  let ?k = "foldl (\<lambda>t (key, pressed). setKeyState key pressed t) s (fst inp)"
  from assms(1) obtain t where t: "emulateCycle (snd inp) ?k = Inr t" and "sp s' = sp t"
    by (auto simp: main_iteration_def renderDisplay_def split: sum.splits if_splits)
  with emulateCycle_sp [OF t] assms(2) show ?thesis by (simp add: key_events_sp)
qed

lemma main_loop_sp:
  "main_loop inps s = Inr s' \<Longrightarrow> unat (sp s) \<le> STACK_SIZE \<Longrightarrow> unat (sp s') \<le> STACK_SIZE"
proof (induction inps arbitrary: s)
  case Nil
  then show ?case by simp
next
  case (Cons inp inps)
  from Cons.prems(1) obtain t where t: "main_iteration inp s = Inr t"
    and r: "main_loop inps t = Inr s'"
    by (auto split: sum.splits)
  from Cons.IH [OF r main_iteration_sp [OF t Cons.prems(2)]] show ?case .
qed

lemma copy_rom_sp: "copy_rom i bs s = Inr s' \<Longrightarrow> sp s' = sp s"
proof (induction bs arbitrary: i s)
  case Nil
  then show ?case by simp
next
  case (Cons b bs)
  from Cons.prems have "copy_rom (Suc i) bs (s\<lparr>memory := (memory s)[PROGRAM_START + i := b]\<rparr>) = Inr s'"
    by (simp split: if_splits)
  from Cons.IH [OF this] show ?case by simp
qed

lemma loadROM_sp: "loadROM filename file s = Inr s' \<Longrightarrow> sp s' = sp s"
  by (auto simp: loadROM_def split: option.splits if_splits dest: copy_rom_sp)

lemma exec_2nnn:
  assumes "opcode AND 0xF000 = 0x2000"
  shows "executeOpcode rnd opcode s =
           (if unat (sp s) < STACK_SIZE
            then Inr (s\<lparr>stack := (stack s)[unat (sp s) := pc s], sp := sp s + 1,
                        pc := opcode AND 0x0FFF\<rparr>)
            else Inl (Undefined_Behaviour Stack (unat (sp s))))"
  using assms by (simp add: executeOpcode_def exec_2_def op_nnn_def Let_def)

lemma exec_00EE:
  "executeOpcode rnd 0x00EE s =
     (if unat (sp s - 1) < STACK_SIZE
      then Inr (s\<lparr>sp := sp s - 1, pc := stack s ! unat (sp s - 1) + 2\<rparr>)
      else Inl (Undefined_Behaviour Stack (unat (sp s - 1))))"
  by (simp add: executeOpcode_def exec_0_def Let_def)

text \<open>
  C7, as the code has it. In every state that the driver reaches after loading a ROM and
  running any number of iterations, the stack pointer is at most 16; it can be 16. There,
  \<open>2nnn\<close> stores \<open>pc\<close> in \<open>stack[sp]\<close>, increments \<open>sp\<close> and jumps when \<open>sp < 16\<close>, and \<open>00EE\<close>
  decrements \<open>sp\<close> and sets \<open>pc\<close> to \<open>stack[sp] + 2\<close> when \<open>sp > 0\<close>. The code checks
  neither: a call at \<open>sp = 16\<close> indexes \<open>stack[16]\<close>, a return at \<open>sp = 0\<close> wraps \<open>sp\<close> to
  65535 and indexes \<open>stack[65535]\<close>; neither is reported.
\<close>

theorem stack_pointer_unchecked:
  assumes "chip8_main filename file inps = Inr s"
  shows "unat (sp s) \<le> STACK_SIZE \<and>
         (\<forall>rnd opcode. opcode AND 0xF000 = 0x2000 \<longrightarrow>
            executeOpcode rnd opcode s =
              (if unat (sp s) < STACK_SIZE
               then Inr (s\<lparr>stack := (stack s)[unat (sp s) := pc s], sp := sp s + 1,
                           pc := opcode AND 0x0FFF\<rparr>)
               else Inl (Undefined_Behaviour Stack STACK_SIZE))) \<and>
         (\<forall>rnd. executeOpcode rnd 0x00EE s =
              (if 0 < unat (sp s)
               then Inr (s\<lparr>sp := sp s - 1, pc := stack s ! (unat (sp s) - 1) + 2\<rparr>)
               else Inl (Undefined_Behaviour Stack 65535)))"
proof -
  from assms obtain s0 where l: "loadROM filename file Chip8_init = Inr s0"
    and r: "main_loop inps s0 = Inr s"
    by (auto simp: chip8_main_def split: sum.splits)
  from loadROM_sp [OF l] have "unat (sp s0) \<le> STACK_SIZE" by (simp add: Chip8_init_def)
  with main_loop_sp [OF r] have le: "unat (sp s) \<le> STACK_SIZE" .
  have call: "executeOpcode rnd opcode s =
              (if unat (sp s) < STACK_SIZE
               then Inr (s\<lparr>stack := (stack s)[unat (sp s) := pc s], sp := sp s + 1,
                           pc := opcode AND 0x0FFF\<rparr>)
               else Inl (Undefined_Behaviour Stack STACK_SIZE))"
    if "opcode AND 0xF000 = 0x2000" for rnd opcode
    using le by (simp add: exec_2nnn [OF that])
  have ret: "executeOpcode rnd 0x00EE s =
              (if 0 < unat (sp s)
               then Inr (s\<lparr>sp := sp s - 1, pc := stack s ! (unat (sp s) - 1) + 2\<rparr>)
               else Inl (Undefined_Behaviour Stack 65535))" for rnd
  proof (cases "0 < unat (sp s)")
    case True
    then have "unat (sp s - 1) = unat (sp s) - 1"
      by (simp add: unat_sub word_le_nat_alt)
    with True le show ?thesis by (simp add: exec_00EE)
  next
    case False
    then have "sp s = 0" by (simp add: unat_eq_0)
    moreover have "unat (- 1 :: u16) = 65535"
      by (simp add: unsigned_minus_1_eq_mask mask_eq_exp_minus_1)
    ultimately show ?thesis by (simp add: exec_00EE)
  qed
  from le call ret show ?thesis by blast
qed


theorem stack_pointer_unchecked_witness:
  "chip8_main ''rom.ch8'' (Some [0x22, 0x00]) [([], 0)] =
     Inr (Chip8_init\<lparr>memory := (memory Chip8_init)[0x200 := 0x22, 0x201 := 0x00],
                     stack := (stack Chip8_init)[0 := 0x200], sp := 1\<rparr>) \<and>
   unat (sp (Chip8_init\<lparr>memory := (memory Chip8_init)[0x200 := 0x22, 0x201 := 0x00],
                     stack := (stack Chip8_init)[0 := 0x200], sp := 1\<rparr>)) \<le> STACK_SIZE \<and>
   (0x2ABC :: u16) AND 0xF000 = 0x2000 \<and>
   executeOpcode 0 0x2ABC
       (Chip8_init\<lparr>memory := (memory Chip8_init)[0x200 := 0x22, 0x201 := 0x00],
                     stack := (stack Chip8_init)[0 := 0x200], sp := 1\<rparr>) =
     Inr (Chip8_init\<lparr>memory := (memory Chip8_init)[0x200 := 0x22, 0x201 := 0x00],
                     stack := (stack Chip8_init)[0 := 0x200, 1 := 0x200], sp := 2, pc := 0xABC\<rparr>) \<and>
   executeOpcode 0 0x00EE
       (Chip8_init\<lparr>memory := (memory Chip8_init)[0x200 := 0x22, 0x201 := 0x00],
                     stack := (stack Chip8_init)[0 := 0x200], sp := 1\<rparr>) =
     Inr (Chip8_init\<lparr>memory := (memory Chip8_init)[0x200 := 0x22, 0x201 := 0x00],
                     stack := (stack Chip8_init)[0 := 0x200], sp := 0, pc := 0x202\<rparr>)"
proof -
  let ?s = "Chip8_init\<lparr>memory := (memory Chip8_init)[0x200 := 0x22, 0x201 := 0x00],
                     stack := (stack Chip8_init)[0 := 0x200], sp := 1\<rparr>"
  have m: "chip8_main ''rom.ch8'' (Some [0x22, 0x00]) [([], 0)] = Inr ?s"
    by (simp add: chip8_main_def loadROM_def main_iteration_def emulateCycle_def fetchOpcode_def
        executeOpcode_def exec_2_def op_nnn_def Let_def Chip8_init_def length_load_fontset)
  from stack_pointer_unchecked [OF m] have
    "unat (sp ?s) \<le> STACK_SIZE"
    "(0x2ABC :: u16) AND 0xF000 = 0x2000 \<longrightarrow> executeOpcode 0 0x2ABC ?s =
              (if unat (sp ?s) < STACK_SIZE
               then Inr (?s\<lparr>stack := (stack ?s)[unat (sp ?s) := pc ?s], sp := sp ?s + 1,
                           pc := 0x2ABC AND 0x0FFF\<rparr>)
               else Inl (Undefined_Behaviour Stack STACK_SIZE))"
    "executeOpcode 0 0x00EE ?s =
              (if 0 < unat (sp ?s)
               then Inr (?s\<lparr>sp := sp ?s - 1, pc := stack ?s ! (unat (sp ?s) - 1) + 2\<rparr>)
               else Inl (Undefined_Behaviour Stack 65535))"
    by blast+
  with m show ?thesis by (simp add: Chip8_init_def)
qed

text \<open>
  C7 does not hold for the ROM \<open>22 00\<close> (a call to itself): after sixteen iterations the
  stack pointer is 16, outside \<open>[0,16)\<close>, and the seventeenth indexes \<open>stack[16]\<close>. For the
  ROM \<open>00 EE\<close> the first iteration indexes \<open>stack[65535]\<close>.
\<close>

theorem stack_pointer_leaves_range:
  "chip8_main ''rom.ch8'' (Some [0x22, 0x00]) (map (\<lambda>i. ([], 0)) [0..<16]) =
     Inr (Chip8_init\<lparr>memory := (memory Chip8_init)[0x200 := 0x22, 0x201 := 0x00],
                     stack := (stack Chip8_init)[0 := 0x200, 1 := 0x200, 2 := 0x200, 3 := 0x200,
                        4 := 0x200, 5 := 0x200, 6 := 0x200, 7 := 0x200, 8 := 0x200, 9 := 0x200,
                        10 := 0x200, 11 := 0x200, 12 := 0x200, 13 := 0x200, 14 := 0x200,
                        15 := 0x200],
                     sp := 16\<rparr>) \<and>
   chip8_main ''rom.ch8'' (Some [0x22, 0x00]) (map (\<lambda>i. ([], 0)) [0..<17]) =
     Inl (Undefined_Behaviour Stack 16) \<and>
   chip8_main ''rom.ch8'' (Some [0x00, 0xEE]) [([], 0)] =
     Inl (Undefined_Behaviour Stack 65535)"
  by (simp add: chip8_main_def loadROM_def main_iteration_def emulateCycle_def fetchOpcode_def
        executeOpcode_def exec_2_def exec_0_def op_nnn_def Let_def Chip8_init_def length_load_fontset
        unsigned_minus_1_eq_mask mask_eq_exp_minus_1 upt_rec)

section \<open>Drawing a sprite\<close>

lemma pixel_index_inj:
  assumes "pixel_index x y row col = pixel_index x y row' col'" and "col < 8" and "col' < 8"
  shows "row = row' \<and> col = col'"
proof -
  from assms(1) have e: "row * 64 + col = row' * 64 + col'"
    by (simp add: pixel_index_def)
  have "(row * 64 + col) div 64 = row" "(row' * 64 + col') div 64 = row'"
    using assms(2,3) by simp_all
  with e have "row = row'" by simp
  with e show ?thesis by simp
qed

lemma draw_cols_display:
  assumes "length (display s) = DISPLAY_WIDTH * DISPLAY_HEIGHT"
    and "distinct cols"
    and "\<And>col. col \<in> set cols \<Longrightarrow> sprite_bit sprite col \<Longrightarrow>
           pixel_index x y row col < DISPLAY_WIDTH * DISPLAY_HEIGHT"
  shows "\<exists>s'. draw_cols sprite x y row cols s = Inr s' \<and>
           (\<forall>k < DISPLAY_WIDTH * DISPLAY_HEIGHT. display s' ! k =
              (if \<exists>col \<in> set cols. sprite_bit sprite col \<and> k = pixel_index x y row col
               then display s ! k XOR 1 else display s ! k)) \<and>
           V s' = (if \<exists>col \<in> set cols. sprite_bit sprite col \<and>
                                      display s ! pixel_index x y row col = 1
                   then (V s)[0xF := 1] else V s)"
  using assms
proof (induction cols arbitrary: s)
  case Nil
  then show ?case by simp
next
  case (Cons col cols)
  show ?case
  proof (cases "sprite_bit sprite col")
    case False
    from Cons.prems have "\<exists>s'. draw_cols sprite x y row cols s = Inr s' \<and>
           (\<forall>k < DISPLAY_WIDTH * DISPLAY_HEIGHT. display s' ! k =
              (if \<exists>col \<in> set cols. sprite_bit sprite col \<and> k = pixel_index x y row col
               then display s ! k XOR 1 else display s ! k)) \<and>
           V s' = (if \<exists>col \<in> set cols. sprite_bit sprite col \<and>
                                      display s ! pixel_index x y row col = 1
                   then (V s)[0xF := 1] else V s)"
      by (intro Cons.IH) simp_all
    with False show ?thesis by auto
  next
    case True
    let ?i = "pixel_index x y row col"
    let ?t = "s\<lparr>V := (if display s ! ?i = 1 then (V s)[0xF := 1] else V s),
               display := (display s)[?i := display s ! ?i XOR 1]\<rparr>"
    from Cons.prems True have i: "?i < DISPLAY_WIDTH * DISPLAY_HEIGHT" by simp
    have other: "pixel_index x y row c \<noteq> ?i" if "c \<in> set cols" for c
      using that Cons.prems(2) by (auto simp: pixel_index_def)
    have "\<exists>s'. draw_cols sprite x y row cols ?t = Inr s' \<and>
           (\<forall>k < DISPLAY_WIDTH * DISPLAY_HEIGHT. display s' ! k =
              (if \<exists>c \<in> set cols. sprite_bit sprite c \<and> k = pixel_index x y row c
               then display ?t ! k XOR 1 else display ?t ! k)) \<and>
           V s' = (if \<exists>c \<in> set cols. sprite_bit sprite c \<and>
                                      display ?t ! pixel_index x y row c = 1
                   then (V ?t)[0xF := 1] else V ?t)"
    proof (rule Cons.IH)
      show "length (display ?t) = DISPLAY_WIDTH * DISPLAY_HEIGHT"
        using Cons.prems(1) by simp
      show "distinct cols" using Cons.prems(2) by simp
      show "pixel_index x y row c < DISPLAY_WIDTH * DISPLAY_HEIGHT"
        if "c \<in> set cols" "sprite_bit sprite c" for c
        using that Cons.prems(3) [of c] by simp
    qed
    then obtain s' where r: "draw_cols sprite x y row cols ?t = Inr s'"
      and d0: "\<forall>k < DISPLAY_WIDTH * DISPLAY_HEIGHT. display s' ! k =
              (if \<exists>c \<in> set cols. sprite_bit sprite c \<and> k = pixel_index x y row c
               then display ?t ! k XOR 1 else display ?t ! k)"
      and v: "V s' = (if \<exists>c \<in> set cols. sprite_bit sprite c \<and>
                                      display ?t ! pixel_index x y row c = 1
                   then (V ?t)[0xF := 1] else V ?t)"
      by blast
    note d = d0 [rule_format]
    have e: "draw_cols sprite x y row (col # cols) s = Inr s'"
      using True i r by (simp add: Let_def)
    have d': "display s' ! k =
              (if \<exists>c \<in> set (col # cols). sprite_bit sprite c \<and> k = pixel_index x y row c
               then display s ! k XOR 1 else display s ! k)"
      if k: "k < DISPLAY_WIDTH * DISPLAY_HEIGHT" for k
    proof (cases "k = ?i")
      case True
      with other have "\<not> (\<exists>c \<in> set cols. sprite_bit sprite c \<and> k = pixel_index x y row c)"
        by blast
      with d [OF k] have "display s' ! k = display ?t ! k" by simp
      also have "\<dots> = display s ! k XOR 1"
        using True i Cons.prems(1) by simp
      finally show ?thesis using True \<open>sprite_bit sprite col\<close> by auto
    next
      case False
      then have "display ?t ! k = display s ! k" by simp
      with d [OF k] False show ?thesis by auto
    qed
    have same: "display ?t ! pixel_index x y row c = display s ! pixel_index x y row c"
      if "c \<in> set cols" for c
      using other [OF that] by simp
    have hit: "(\<exists>c \<in> set cols. sprite_bit sprite c \<and> display ?t ! pixel_index x y row c = 1) \<longleftrightarrow>
               (\<exists>c \<in> set cols. sprite_bit sprite c \<and> display s ! pixel_index x y row c = 1)"
      using same by (metis (no_types, lifting))
    have v': "V s' = (if \<exists>c \<in> set (col # cols). sprite_bit sprite c \<and>
                                      display s ! pixel_index x y row c = 1
                   then (V s)[0xF := 1] else V s)"
    proof (cases "display s ! ?i = 1")
      case True
      with v hit \<open>sprite_bit sprite col\<close> show ?thesis by auto
    next
      case False
      with v hit show ?thesis by auto
    qed
    from e d' v' show ?thesis by blast
  qed
qed

lemma draw_rows_display:
  assumes "length (display s) = DISPLAY_WIDTH * DISPLAY_HEIGHT"
    and "distinct rows"
    and "\<And>row. row \<in> set rows \<Longrightarrow> unat (I s) + row < MEMORY_SIZE"
    and "\<And>row col. row \<in> set rows \<Longrightarrow> col < 8 \<Longrightarrow>
           sprite_bit (memory s ! (unat (I s) + row)) col \<Longrightarrow>
           pixel_index x y row col < DISPLAY_WIDTH * DISPLAY_HEIGHT"
  shows "\<exists>s'. draw_rows x y rows s = Inr s' \<and>
           (\<forall>k < DISPLAY_WIDTH * DISPLAY_HEIGHT. display s' ! k =
              (if \<exists>row \<in> set rows. \<exists>col < 8.
                    sprite_bit (memory s ! (unat (I s) + row)) col \<and> k = pixel_index x y row col
               then display s ! k XOR 1 else display s ! k)) \<and>
           V s' = (if \<exists>row \<in> set rows. \<exists>col < 8.
                        sprite_bit (memory s ! (unat (I s) + row)) col \<and>
                        display s ! pixel_index x y row col = 1
                   then (V s)[0xF := 1] else V s)"
  using assms
proof (induction rows arbitrary: s)
  case Nil
  then show ?case by simp
next
  case (Cons row rows)
  define lit where "lit = (\<lambda>r c. sprite_bit (memory s ! (unat (I s) + r)) c)"
  define hit where "hit = (\<lambda>r k. \<exists>c < 8. lit r c \<and> k = pixel_index x y r c)"
  define coll where "coll = (\<lambda>d r. \<exists>c < 8. lit r c \<and> d ! pixel_index x y r c = (1 :: u8))"
  have m: "unat (I s) + row < MEMORY_SIZE" using Cons.prems(3) by simp
  have "\<exists>t. draw_cols (memory s ! (unat (I s) + row)) x y row [0..<8] s = Inr t \<and>
           (\<forall>k < DISPLAY_WIDTH * DISPLAY_HEIGHT. display t ! k =
              (if \<exists>col \<in> set [0..<8]. lit row col \<and> k = pixel_index x y row col
               then display s ! k XOR 1 else display s ! k)) \<and>
           V t = (if \<exists>col \<in> set [0..<8]. lit row col \<and> display s ! pixel_index x y row col = 1
                   then (V s)[0xF := 1] else V s)"
    unfolding lit_def
  proof (rule draw_cols_display)
    show "length (display s) = DISPLAY_WIDTH * DISPLAY_HEIGHT" by (rule Cons.prems(1))
    show "distinct [0..<8]" by simp
    show "pixel_index x y row col < DISPLAY_WIDTH * DISPLAY_HEIGHT"
      if "col \<in> set [0..<8]" "sprite_bit (memory s ! (unat (I s) + row)) col" for col
      using that Cons.prems(4) [of row col] by simp
  qed
  then obtain t where t: "draw_cols (memory s ! (unat (I s) + row)) x y row [0..<8] s = Inr t"
    and dt0: "\<forall>k < DISPLAY_WIDTH * DISPLAY_HEIGHT. display t ! k =
              (if \<exists>col \<in> set [0..<8]. lit row col \<and> k = pixel_index x y row col
               then display s ! k XOR 1 else display s ! k)"
    and vt0: "V t = (if \<exists>col \<in> set [0..<8]. lit row col \<and> display s ! pixel_index x y row col = 1
                   then (V s)[0xF := 1] else V s)"
    by blast
  have cols: "(\<exists>col \<in> set [0..<8]. P col) \<longleftrightarrow> (\<exists>c < 8. P c)" for P :: "nat \<Rightarrow> bool"
    by auto
  have dt: "display t ! k = (if hit row k then display s ! k XOR 1 else display s ! k)"
    if "k < DISPLAY_WIDTH * DISPLAY_HEIGHT" for k
    using dt0 [unfolded cols, rule_format, OF that] unfolding hit_def .
  have vt: "V t = (if coll (display s) row then (V s)[0xF := 1] else V s)"
    using vt0 [unfolded cols] unfolding coll_def .
  from draw_cols_frame [OF t] have ft: "memory t = memory s" "I t = I s"
    "length (display t) = DISPLAY_WIDTH * DISPLAY_HEIGHT"
    using Cons.prems(1) by simp_all
  have "\<exists>s'. draw_rows x y rows t = Inr s' \<and>
           (\<forall>k < DISPLAY_WIDTH * DISPLAY_HEIGHT. display s' ! k =
              (if \<exists>r \<in> set rows. \<exists>col < 8.
                    sprite_bit (memory t ! (unat (I t) + r)) col \<and> k = pixel_index x y r col
               then display t ! k XOR 1 else display t ! k)) \<and>
           V s' = (if \<exists>r \<in> set rows. \<exists>col < 8.
                        sprite_bit (memory t ! (unat (I t) + r)) col \<and>
                        display t ! pixel_index x y r col = 1
                   then (V t)[0xF := 1] else V t)"
  proof (rule Cons.IH)
    show "length (display t) = DISPLAY_WIDTH * DISPLAY_HEIGHT" by (rule ft)
    show "distinct rows" using Cons.prems(2) by simp
    show "unat (I t) + r < MEMORY_SIZE" if "r \<in> set rows" for r
      using that Cons.prems(3) [of r] ft by simp
    show "pixel_index x y r col < DISPLAY_WIDTH * DISPLAY_HEIGHT"
      if "r \<in> set rows" "col < 8" "sprite_bit (memory t ! (unat (I t) + r)) col" for r col
      using that Cons.prems(4) [of r col] ft by simp
  qed
  then obtain s' where r: "draw_rows x y rows t = Inr s'"
    and ds0: "\<forall>k < DISPLAY_WIDTH * DISPLAY_HEIGHT. display s' ! k =
              (if \<exists>r \<in> set rows. hit r k then display t ! k XOR 1 else display t ! k)"
    and vs: "V s' = (if \<exists>r \<in> set rows. coll (display t) r then (V t)[0xF := 1] else V t)"
    unfolding ft hit_def coll_def lit_def by blast
  note ds = ds0 [rule_format]
  have e: "draw_rows x y (row # rows) s = Inr s'"
    using m t r by simp
  have apart: "\<not> hit row (pixel_index x y r c)" if "r \<in> set rows" "c < 8" for r c
  proof
    assume "hit row (pixel_index x y r c)"
    then obtain c' where "c' < 8" "pixel_index x y r c = pixel_index x y row c'"
      unfolding hit_def by blast
    with pixel_index_inj [of x y r c row c'] that(2) have "r = row" by simp
    with that(1) Cons.prems(2) show False by simp
  qed
  have hitD: "\<exists>c < 8. lit r c \<and> k = pixel_index x y r c" if "hit r k" for r k
    using that unfolding hit_def .
  have d': "display s' ! k =
              (if \<exists>r \<in> set (row # rows). hit r k then display s ! k XOR 1 else display s ! k)"
    if k: "k < DISPLAY_WIDTH * DISPLAY_HEIGHT" for k
  proof (cases "hit row k")
    case True
    have "\<not> (\<exists>r \<in> set rows. hit r k)"
    proof
      assume "\<exists>r \<in> set rows. hit r k"
      then obtain r where r: "r \<in> set rows" and "hit r k" by blast
      from hitD [OF this(2)] obtain c where c: "c < 8" and kk: "k = pixel_index x y r c"
        by blast
      from apart [OF r c] True [unfolded kk] show False by (rule notE)
    qed
    with ds [OF k] have "display s' ! k = display t ! k" by simp
    also from True dt [OF k] have "\<dots> = display s ! k XOR 1" by simp
    finally show ?thesis using True by simp
  next
    case False
    with dt [OF k] have "display t ! k = display s ! k" by simp
    with ds [OF k] False show ?thesis by simp
  qed
  have same: "display t ! pixel_index x y r c = display s ! pixel_index x y r c"
    if "r \<in> set rows" "c < 8" "lit r c" for r c
  proof -
    from that Cons.prems(4) [of r c]
    have "pixel_index x y r c < DISPLAY_WIDTH * DISPLAY_HEIGHT" by (simp add: lit_def)
    from dt [OF this] apart [OF that(1,2)] show ?thesis by simp
  qed
  have coll_eq: "coll (display t) r \<longleftrightarrow> coll (display s) r" if "r \<in> set rows" for r
    unfolding coll_def using same [OF that] by auto
  have v': "V s' = (if \<exists>r \<in> set (row # rows). coll (display s) r then (V s)[0xF := 1] else V s)"
  proof (cases "coll (display s) row")
    case True
    with vt have "V t = (V s)[0xF := 1]" by simp
    with vs True show ?thesis by simp
  next
    case False
    with vt have "V t = V s" by simp
    with vs coll_eq False show ?thesis by simp
  qed
  from e d' v' show ?case unfolding hit_def coll_def lit_def by blast
qed

lemma exec_Dxyn:
  assumes "opcode AND 0xF000 = 0xD000"
  shows "executeOpcode rnd opcode s =
           (case draw_rows (unat (V s ! op_x opcode) mod DISPLAY_WIDTH)
                   (unat (V s ! op_y opcode) mod DISPLAY_HEIGHT)
                   [0..<unat (opcode AND 0x000F)] (s\<lparr>V := (V s)[0xF := 0]\<rparr>) of
              Inl f \<Rightarrow> Inl f
            | Inr s' \<Rightarrow> Inr (s'\<lparr>drawFlag := True, pc := pc s' + 2\<rparr>))"
  using assms by (simp add: executeOpcode_def exec_D_def Let_def)

text \<open>
  C1, as the code has it. Let \<open>x = Vx mod 64\<close>, \<open>y = Vy mod 32\<close>, and let the \<open>n\<close> sprite bytes
  lie inside memory. The pixel of sprite row \<open>row\<close> and column \<open>col\<close> has the linear index
  \<open>(y + row) * 64 + (x + col)\<close>. When the index of every set sprite bit is below 2048,
  \<open>Dxyn\<close> completes: each framebuffer cell that is the index of a set sprite bit is XORed
  with 1 and every other cell is unchanged, \<open>VF\<close> is 1 if a cell that held 1 was hit and 0
  otherwise, the other registers keep their values, the redraw flag is set and \<open>pc\<close>
  advances by 2. No column is clipped: for \<open>x + col \<ge> 64\<close> the index is that of column
  \<open>x + col - 64\<close> in framebuffer row \<open>y + row + 1\<close>.
\<close>

theorem draw_sprite_linear_index:
  fixes s :: chip8 and opcode :: u16
  defines "x \<equiv> unat (V s ! op_x opcode) mod DISPLAY_WIDTH"
    and "y \<equiv> unat (V s ! op_y opcode) mod DISPLAY_HEIGHT"
    and "n \<equiv> unat (opcode AND 0x000F)"
  assumes "valid s" and "opcode AND 0xF000 = 0xD000"
    and "unat (I s) + n \<le> MEMORY_SIZE"
    and "\<forall>row < n. \<forall>col < 8. sprite_bit (memory s ! (unat (I s) + row)) col \<longrightarrow>
           pixel_index x y row col < DISPLAY_WIDTH * DISPLAY_HEIGHT"
  shows "\<exists>s'. executeOpcode rnd opcode s = Inr s' \<and>
           (\<forall>k < DISPLAY_WIDTH * DISPLAY_HEIGHT. display s' ! k =
              (if \<exists>row < n. \<exists>col < 8. sprite_bit (memory s ! (unat (I s) + row)) col \<and>
                                         k = pixel_index x y row col
               then display s ! k XOR 1 else display s ! k)) \<and>
           V s' ! 0xF =
              (if \<exists>row < n. \<exists>col < 8. sprite_bit (memory s ! (unat (I s) + row)) col \<and>
                                         display s ! pixel_index x y row col = 1
               then 1 else 0) \<and>
           (\<forall>i < 0xF. V s' ! i = V s ! i) \<and>
           drawFlag s' \<and> pc s' = pc s + 2 \<and>
           memory s' = memory s \<and> I s' = I s \<and> stack s' = stack s \<and> sp s' = sp s \<and>
           keypad s' = keypad s \<and> delayTimer s' = delayTimer s \<and>
           soundTimer s' = soundTimer s \<and> cerr s' = cerr s \<and>
           (\<forall>row col. DISPLAY_WIDTH \<le> x + col \<longrightarrow>
              pixel_index x y row col = (y + row + 1) * DISPLAY_WIDTH + (x + col - DISPLAY_WIDTH))"
proof -
  let ?s0 = "s\<lparr>V := (V s)[0xF := 0]\<rparr>"
  define lit where "lit = (\<lambda>r c. sprite_bit (memory s ! (unat (I s) + r)) c)"
  have len: "length (display s) = DISPLAY_WIDTH * DISPLAY_HEIGHT" "length (V s) = 16"
    using assms(4) by (simp_all add: valid_def)
  have rows: "(\<exists>row \<in> set [0..<n]. P row) \<longleftrightarrow> (\<exists>row < n. P row)" for P :: "nat \<Rightarrow> bool"
    by auto
  have "\<exists>s1. draw_rows x y [0..<n] ?s0 = Inr s1 \<and>
           (\<forall>k < DISPLAY_WIDTH * DISPLAY_HEIGHT. display s1 ! k =
              (if \<exists>row \<in> set [0..<n]. \<exists>col < 8.
                    sprite_bit (memory ?s0 ! (unat (I ?s0) + row)) col \<and> k = pixel_index x y row col
               then display ?s0 ! k XOR 1 else display ?s0 ! k)) \<and>
           V s1 = (if \<exists>row \<in> set [0..<n]. \<exists>col < 8.
                        sprite_bit (memory ?s0 ! (unat (I ?s0) + row)) col \<and>
                        display ?s0 ! pixel_index x y row col = 1
                   then (V ?s0)[0xF := 1] else V ?s0)"
  proof (rule draw_rows_display)
    show "length (display ?s0) = DISPLAY_WIDTH * DISPLAY_HEIGHT" using len by simp
    show "distinct [0..<n]" by simp
    show "unat (I ?s0) + row < MEMORY_SIZE" if "row \<in> set [0..<n]" for row
      using that assms(6) by simp
    show "pixel_index x y row col < DISPLAY_WIDTH * DISPLAY_HEIGHT"
      if "row \<in> set [0..<n]" "col < 8" "sprite_bit (memory ?s0 ! (unat (I ?s0) + row)) col"
      for row col
      using that assms(7) by simp
  qed
  note big = this
  have sel: "memory ?s0 = memory s" "I ?s0 = I s" "display ?s0 = display s"
    "V ?s0 = (V s)[0xF := 0]"
    by simp_all
  from big [unfolded sel rows]
  obtain s1 where r: "draw_rows x y [0..<n] ?s0 = Inr s1"
    and d0: "\<forall>k < DISPLAY_WIDTH * DISPLAY_HEIGHT. display s1 ! k =
              (if \<exists>row < n. \<exists>col < 8. lit row col \<and> k = pixel_index x y row col
               then display s ! k XOR 1 else display s ! k)"
    and v0: "V s1 = (if \<exists>row < n. \<exists>col < 8. lit row col \<and> display s ! pixel_index x y row col = 1
                   then (V s)[0xF := 0, 0xF := 1] else (V s)[0xF := 0])"
    unfolding lit_def by blast
  define erased where
    "erased \<longleftrightarrow> (\<exists>row < n. \<exists>col < 8. lit row col \<and> display s ! pixel_index x y row col = 1)"
  have v: "V s1 = (if erased then (V s)[0xF := 0, 0xF := 1] else (V s)[0xF := 0])"
    using v0 unfolding erased_def .
  let ?s' = "s1\<lparr>drawFlag := True, pc := pc s1 + 2\<rparr>"
  have e: "executeOpcode rnd opcode s = Inr ?s'"
    using r by (simp add: exec_Dxyn [OF assms(5)] x_def y_def n_def)
  have "V ?s' ! 0xF = (if erased then 1 else 0)"
    using v len(2) by simp
  then have vf: "V ?s' ! 0xF =
      (if \<exists>row < n. \<exists>col < 8. lit row col \<and> display s ! pixel_index x y row col = 1
       then 1 else 0)"
    unfolding erased_def .
  have regs: "\<forall>i < 0xF. V ?s' ! i = V s ! i"
    using v by simp
  have wrap: "\<forall>row col. DISPLAY_WIDTH \<le> x + col \<longrightarrow>
              pixel_index x y row col = (y + row + 1) * DISPLAY_WIDTH + (x + col - DISPLAY_WIDTH)"
    by (simp add: pixel_index_def)
  from draw_rows_frame [OF r] have frame:
    "drawFlag ?s'" "pc ?s' = pc s + 2" "memory ?s' = memory s" "I ?s' = I s"
    "stack ?s' = stack s" "sp ?s' = sp s" "keypad ?s' = keypad s"
    "delayTimer ?s' = delayTimer s" "soundTimer ?s' = soundTimer s" "cerr ?s' = cerr s"
    by simp_all
  have d: "\<forall>k < DISPLAY_WIDTH * DISPLAY_HEIGHT. display ?s' ! k =
              (if \<exists>row < n. \<exists>col < 8. lit row col \<and> k = pixel_index x y row col
               then display s ! k XOR 1 else display s ! k)"
    using d0 by simp
  from e d vf regs frame wrap show ?thesis
    unfolding lit_def by (intro exI [of _ ?s'] conjI)
qed

theorem draw_sprite_linear_index_witness:
  "valid (Chip8_init\<lparr>memory := (memory Chip8_init)[0x300 := 0xC0],
                      V := [10, 5, 0, 0, 0, 0, 0, 0, 0, 0, 0, 0, 0, 0, 0, 7], I := 0x300\<rparr>) \<and>
   (0xD011 :: u16) AND 0xF000 = 0xD000 \<and> op_x 0xD011 = 0 \<and> op_y 0xD011 = 1 \<and>
   sprite_bit 0xC0 0 \<and> sprite_bit 0xC0 1 \<and> pixel_index 10 5 0 0 = 330 \<and> pixel_index 10 5 0 1 = 331 \<and>
   executeOpcode 0 0xD011
       (Chip8_init\<lparr>memory := (memory Chip8_init)[0x300 := 0xC0],
                      V := [10, 5, 0, 0, 0, 0, 0, 0, 0, 0, 0, 0, 0, 0, 0, 7], I := 0x300\<rparr>) =
     Inr (Chip8_init\<lparr>memory := (memory Chip8_init)[0x300 := 0xC0],
                     V := [10, 5, 0, 0, 0, 0, 0, 0, 0, 0, 0, 0, 0, 0, 0, 0], I := 0x300,
                     display := (display Chip8_init)[330 := 1, 331 := 1],
                     drawFlag := True, pc := 0x202\<rparr>)"
proof -
  let ?s = "Chip8_init\<lparr>memory := (memory Chip8_init)[0x300 := 0xC0],
                      V := [10, 5, 0, 0, 0, 0, 0, 0, 0, 0, 0, 0, 0, 0, 0, 7], I := 0x300\<rparr>"
  let ?r = "Chip8_init\<lparr>memory := (memory Chip8_init)[0x300 := 0xC0],
                     V := [10, 5, 0, 0, 0, 0, 0, 0, 0, 0, 0, 0, 0, 0, 0, 0], I := 0x300,
                     display := (display Chip8_init)[330 := 1, 331 := 1],
                     drawFlag := True, pc := 0x202\<rparr>"
  have val: "valid ?s" using valid_Chip8_init by (simp add: valid_def)
  have fam: "(0xD011 :: u16) AND 0xF000 = 0xD000" by simp
  have ops: "op_x 0xD011 = 0" "op_y 0xD011 = 1" by (simp_all add: op_x_def op_y_def)
  have mem: "unat (I ?s) + unat ((0xD011 :: u16) AND 0x000F) \<le> MEMORY_SIZE" by simp
  have fits: "\<forall>row < unat ((0xD011 :: u16) AND 0x000F). \<forall>col < 8.
      sprite_bit (memory ?s ! (unat (I ?s) + row)) col \<longrightarrow>
      pixel_index (unat (V ?s ! op_x 0xD011) mod DISPLAY_WIDTH)
        (unat (V ?s ! op_y 0xD011) mod DISPLAY_HEIGHT) row col < DISPLAY_WIDTH * DISPLAY_HEIGHT"
    by (simp add: ops pixel_index_def)
  from draw_sprite_linear_index [OF val fam mem fits, of 0]
  obtain s' where "executeOpcode 0 0xD011 ?s = Inr s'" and "drawFlag s'" and "pc s' = pc ?s + 2"
    by blast
  moreover have "executeOpcode 0 0xD011 ?s = Inr ?r"
    by (simp add: executeOpcode_def exec_D_def Let_def op_x_def op_y_def sprite_bit_def
        pixel_index_def upt_rec Chip8_init_def length_load_fontset)
  moreover have "sprite_bit 0xC0 0" "sprite_bit 0xC0 1" "pixel_index 10 5 0 0 = 330"
    "pixel_index 10 5 0 1 = 331"
    by (simp_all add: sprite_bit_def pixel_index_def)
  ultimately show ?thesis using val fam ops by simp
qed

text \<open>
  C1 does not hold for a sprite that crosses the right or the bottom edge. With \<open>Vx = 60\<close>,
  \<open>Vy = 0\<close> and the sprite byte \<open>0xFF\<close>, \<open>D011\<close> sets the cells 60 to 67: the cells 64 to 67
  are columns 0 to 3 of framebuffer row 1, so the four columns beyond the right edge are
  drawn, on the left edge of the next row. With \<open>Vy = 31\<close> and two sprite rows, \<open>D012\<close>
  indexes the framebuffer at 2048, beyond its last cell.
\<close>

theorem draw_sprite_crosses_edge:
  "executeOpcode 0 0xD011
       (Chip8_init\<lparr>memory := (memory Chip8_init)[0x300 := 0xFF],
                      V := [60, 0, 0, 0, 0, 0, 0, 0, 0, 0, 0, 0, 0, 0, 0, 0], I := 0x300\<rparr>) =
     Inr (Chip8_init\<lparr>memory := (memory Chip8_init)[0x300 := 0xFF],
                     V := [60, 0, 0, 0, 0, 0, 0, 0, 0, 0, 0, 0, 0, 0, 0, 0], I := 0x300,
                     display := (display Chip8_init)[60 := 1, 61 := 1, 62 := 1, 63 := 1,
                                                      64 := 1, 65 := 1, 66 := 1, 67 := 1],
                     drawFlag := True, pc := 0x202\<rparr>) \<and>
   (64 :: nat) = 1 * DISPLAY_WIDTH + 0 \<and> (67 :: nat) = 1 * DISPLAY_WIDTH + 3 \<and>
   executeOpcode 0 0xD012
       (Chip8_init\<lparr>memory := (memory Chip8_init)[0x300 := 0x80, 0x301 := 0x80],
                      V := [0, 31, 0, 0, 0, 0, 0, 0, 0, 0, 0, 0, 0, 0, 0, 0], I := 0x300\<rparr>) =
     Inl (Undefined_Behaviour Display 2048)"
  by (simp add: executeOpcode_def exec_D_def Let_def op_x_def op_y_def sprite_bit_def
        pixel_index_def upt_rec Chip8_init_def length_load_fontset)

end
